theory Spec2Isabelle
  imports Complex_Main "HOL-Library.Multiset" "HOL-Library.Product_Lexorder"
begin

section \<open>JavaScript values and library functions used by the analysis service\<close>

text \<open>
  The crime-pattern analysis service (class \<open>AIAnalysisService\<close>) is embedded function by
  function. JavaScript numbers are modelled exactly: counts and lengths are \<open>nat\<close>,
  millisecond timestamps are \<open>int\<close>, computed scores are \<open>rat\<close>. Arrays are lists.
  A thrown \<open>TypeError\<close> is the \<open>Inl\<close> branch of a sum type.
\<close>

datatype error = TypeError

subsection \<open>Number to string, string to number\<close>

definition digit_char :: "nat \<Rightarrow> char" where
  "digit_char d = ''0123456789'' ! d"

fun digits :: "nat \<Rightarrow> string" where
  "digits n = (if n < 10 then [digit_char n] else digits (n div 10) @ [digit_char (n mod 10)])"

declare digits.simps [simp del]

text \<open>\<open>String(n)\<close> for an integer-valued number \<open>n\<close>.\<close>

definition toString :: "int \<Rightarrow> string" where
  "toString i = (if i < 0 then CHR ''-'' # digits (nat (- i)) else digits (nat i))"

definition is_digit :: "char \<Rightarrow> bool" where
  "is_digit c = (48 \<le> (of_char c :: nat) \<and> (of_char c :: nat) \<le> 57)"

definition digit_val :: "char \<Rightarrow> nat" where
  "digit_val c = (of_char c :: nat) - 48"

definition digits_val :: "string \<Rightarrow> nat" where
  "digits_val s = foldl (\<lambda>acc c. acc * 10 + digit_val c) 0 s"

text \<open>
  \<open>parseInt(s)\<close> on the strings the service passes to it (property keys made from the
  results of \<open>getHours\<close>, \<open>getDay\<close> and \<open>getMonth\<close>): the value of the leading decimal
  digits, and \<open>NaN\<close> (here \<open>None\<close>) when there are none.
\<close>

definition parseInt :: "string \<Rightarrow> nat option" where
  "parseInt s = (case takeWhile is_digit s of [] \<Rightarrow> None | ds \<Rightarrow> Some (digits_val ds))"

text \<open>
  \<open>x.toFixed(1)\<close> for \<open>x \<ge> 0\<close>: the integer \<open>n\<close> with \<open>n / 10\<close> closest to \<open>x\<close>, the larger
  one of two, printed with one decimal place.
\<close>

definition toFixed1 :: "rat \<Rightarrow> string" where
  "toFixed1 x = (let n = nat \<lfloor>x * 10 + 1 / 2\<rfloor> in digits (n div 10) @ ''.'' @ digits (n mod 10))"

subsection \<open>Strings: comparison, \<open>toLowerCase\<close>, \<open>trim\<close>\<close>

text \<open>Comparison of strings by code units, as \<open>Array.prototype.sort\<close> does by default.\<close>

fun str_less :: "string \<Rightarrow> string \<Rightarrow> bool" where
  "str_less [] [] = False"
| "str_less [] (y # ys) = True"
| "str_less (x # xs) [] = False"
| "str_less (x # xs) (y # ys) =
     (if (of_char x :: nat) < of_char y then True
      else if (of_char x :: nat) = of_char y then str_less xs ys
      else False)"

text \<open>
  \<open>toLowerCase\<close> and \<open>trim\<close>, on ASCII text. A capital letter (code 65 to 90) becomes
  the letter 32 further on, which is the same code with the bit of value 32 set.
\<close>

definition lower_char :: "char \<Rightarrow> char" where
  "lower_char c =
     (if 65 \<le> (of_char c :: nat) \<and> (of_char c :: nat) \<le> 90
      then (case c of Char b0 b1 b2 b3 b4 b5 b6 b7 \<Rightarrow> Char b0 b1 b2 b3 b4 True b6 b7)
      else c)"

definition toLowerCase :: "string \<Rightarrow> string" where
  "toLowerCase s = map lower_char s"

definition is_space :: "char \<Rightarrow> bool" where
  "is_space c = ((of_char c :: nat) \<in> {9, 10, 11, 12, 13, 32})"

definition trim :: "string \<Rightarrow> string" where
  "trim s = rev (dropWhile is_space (rev (dropWhile is_space s)))"

subsection \<open>\<open>Array.prototype.sort\<close>\<close>

text \<open>
  \<open>xs.sort(cmp)\<close> is a stable sort: \<open>a\<close> comes before \<open>b\<close> when \<open>cmp(a, b) < 0\<close>, and
  elements that compare equal keep their order. All comparators of the service are
  consistent, so the result does not depend on the sorting algorithm; it is computed here
  by insertion from the right.
\<close>

fun insertBy :: "('a \<Rightarrow> 'a \<Rightarrow> rat) \<Rightarrow> 'a \<Rightarrow> 'a list \<Rightarrow> 'a list" where
  "insertBy cmp x [] = [x]"
| "insertBy cmp x (y # ys) = (if cmp x y \<le> 0 then x # y # ys else y # insertBy cmp x ys)"

definition sortBy :: "('a \<Rightarrow> 'a \<Rightarrow> rat) \<Rightarrow> 'a list \<Rightarrow> 'a list" where
  "sortBy cmp xs = foldr (insertBy cmp) xs []"

text \<open>
  \<open>xs.sort()\<close> without a comparator converts the elements to strings and compares the
  strings, also when the elements are numbers.
\<close>

definition defaultCompare :: "int \<Rightarrow> int \<Rightarrow> rat" where
  "defaultCompare a b =
     (if str_less (toString a) (toString b) then - 1
      else if str_less (toString b) (toString a) then 1 else 0)"

definition sortDefault :: "int list \<Rightarrow> int list" where
  "sortDefault xs = sortBy defaultCompare xs"

subsection \<open>Objects used as dictionaries\<close>

text \<open>
  An object is the list of its own properties in creation order, with distinct keys.
  \<open>Object.entries\<close> lists the keys that are array indices first, in ascending numeric
  order, and then the other keys in creation order.
\<close>

type_synonym 'v object = "(string \<times> 'v) list"

definition lookup :: "'v object \<Rightarrow> string \<Rightarrow> 'v option" where
  "lookup obj k = map_of obj k"

fun assign :: "'v object \<Rightarrow> string \<Rightarrow> 'v \<Rightarrow> 'v object" where
  "assign [] k v = [(k, v)]"
| "assign ((k', v') # rest) k v =
     (if k' = k then (k, v) # rest else (k', v') # assign rest k v)"

definition array_index :: "string \<Rightarrow> nat option" where
  "array_index k =
     (if k \<noteq> [] \<and> list_all is_digit k \<and> digits (digits_val k) = k \<and> digits_val k < 4294967295
      then Some (digits_val k) else None)"

definition index_key :: "string \<times> 'v \<Rightarrow> nat" where
  "index_key e = (case array_index (fst e) of Some n \<Rightarrow> n | None \<Rightarrow> 0)"

definition Object_entries :: "'v object \<Rightarrow> (string \<times> 'v) list" where
  "Object_entries obj =
     sort_key index_key (filter (\<lambda>e. array_index (fst e) \<noteq> None) obj)
     @ filter (\<lambda>e. array_index (fst e) = None) obj"

text \<open>
  An object made by \<open>{}\<close> inherits the properties of \<open>Object.prototype\<close>: reading one of
  these names finds the inherited member (a function, or the prototype itself for
  \<open>__proto__\<close>) as long as the object has no own property of that name.
\<close>

definition inheritedProperty :: "string \<Rightarrow> bool" where
  "inheritedProperty k \<longleftrightarrow>
     k \<in> set [''constructor'', ''__proto__'', ''hasOwnProperty'', ''isPrototypeOf'',
               ''propertyIsEnumerable'', ''toLocaleString'', ''toString'', ''valueOf'',
               ''__defineGetter__'', ''__defineSetter__'', ''__lookupGetter__'',
               ''__lookupSetter__'']"

text \<open>
  \<open>xs.reduce(f)\<close> without an initial value: a \<open>TypeError\<close> on the empty array, otherwise
  the fold from the first element over the rest.
\<close>

definition reduce1 :: "('a \<Rightarrow> 'a \<Rightarrow> 'a) \<Rightarrow> 'a list \<Rightarrow> error + 'a" where
  "reduce1 f xs = (case xs of [] \<Rightarrow> Inl TypeError | x # rest \<Rightarrow> Inr (foldl f x rest))"

section \<open>Data model\<close>

text \<open>
  A \<open>Date\<close> is given by what its accessors return: milliseconds since the epoch, hour of
  the day (0 to 23), day of the week (0 to 6) and month (0 to 11), the last three in the
  server's time zone.
\<close>

record date =
  getTime :: int
  getHours :: nat
  getDay :: nat
  getMonth :: nat

text \<open>
  An incident, with the five fields the service reads. A missing \<open>location\<close> (\<open>null\<close> or
  \<open>undefined\<close>) is \<open>None\<close>.
\<close>

record incident =
  ident :: string
  type :: string
  severity :: string
  location :: "string option"
  dateTime :: date

text \<open>
  The statistics payload of a pattern, one constructor per detector, with the fields in
  the order of the source:
  hotspot (incidentCount, density, averageSeverity, timeSpread, crimeTypes),
  hourly (peakHour, incidentCount, percentage), daily (peakDay, incidentCount, percentage),
  seasonal (peakMonth, incidentCount, percentage),
  series (incidentCount, timeSpan, geographicSpread, escalationPattern),
  cluster (incidentCount, radius, density, crimeTypes),
  predictive (currentIncidents, trendDirection, growthRate, predictionWindow),
  risk (riskScore, riskLevel, incidentCount, severityDistribution, recentActivity).
\<close>

datatype statistics =
    HotspotStats nat rat rat int "nat object"
  | HourlyStats "nat option" nat string
  | DailyStats "string option" nat string
  | SeasonalStats "string option" nat string
  | SeriesStats nat int rat string
  | ClusterStats nat rat rat "nat object"
  | PredictiveStats nat string rat string
  | RiskStats rat string nat "nat object" rat

text \<open>
  A pattern. The fields \<open>description\<close>, \<open>coordinates\<close>, \<open>timePattern\<close> and
  \<open>recommendations\<close> are presentation only and are not part of the record; where computing
  one of them can throw, the throw is part of the detector below.
\<close>

record pattern =
  ptype :: string
  subtype :: "string option"
  confidence :: rat
  plocation :: string
  statistics :: statistics
  relatedIncidents :: "string list"
  riskLevel :: string

section \<open>Grouping helpers\<close>

fun reduceE :: "('b \<Rightarrow> 'a \<Rightarrow> error + 'b) \<Rightarrow> 'b \<Rightarrow> 'a list \<Rightarrow> error + 'b" where
  "reduceE f acc [] = Inr acc"
| "reduceE f acc (x # xs) = (case f acc x of Inl e \<Rightarrow> Inl e | Inr acc' \<Rightarrow> reduceE f acc' xs)"

text \<open>
  \<open>incident.location.toLowerCase()\<close> is a \<open>TypeError\<close> when the location is missing.
  When the key is not yet an own property of \<open>groups\<close> but names an inherited one,
  \<open>!groups[location]\<close> is false, no array is created, and \<open>groups[location].push\<close> is
  not a function: a \<open>TypeError\<close> again.
\<close>

definition groupByLocation_step :: "incident list object \<Rightarrow> incident \<Rightarrow> error + incident list object" where
  "groupByLocation_step groups inc =
     (case location inc of
        None \<Rightarrow> Inl TypeError
      | Some l \<Rightarrow>
          (let loc = trim (toLowerCase l);
               members = (case lookup groups loc of None \<Rightarrow> [] | Some g \<Rightarrow> g)
           in if lookup groups loc = None \<and> inheritedProperty loc then Inl TypeError
              else Inr (assign groups loc (members @ [inc]))))"

definition groupByLocation :: "incident list \<Rightarrow> error + incident list object" where
  "groupByLocation incidents = reduceE groupByLocation_step [] incidents"

text \<open>
  The crime type and the severity of an incident are category names; the grouping and the
  counting by them are modelled for names that are not properties inherited by a fresh
  object, which are the only ones the results about them concern.
\<close>

definition groupByCrimeType_step :: "incident list object \<Rightarrow> incident \<Rightarrow> incident list object" where
  "groupByCrimeType_step groups inc =
     assign groups (type inc) ((case lookup groups (type inc) of None \<Rightarrow> [] | Some g \<Rightarrow> g) @ [inc])"

definition groupByCrimeType :: "incident list \<Rightarrow> incident list object" where
  "groupByCrimeType incidents = foldl groupByCrimeType_step [] incidents"

definition count_step :: "nat object \<Rightarrow> string \<Rightarrow> nat object" where
  "count_step counts k = assign counts k ((case lookup counts k of None \<Rightarrow> 0 | Some c \<Rightarrow> c) + 1)"

definition getCrimeTypeDistribution :: "incident list \<Rightarrow> nat object" where
  "getCrimeTypeDistribution incidents = foldl (\<lambda>counts inc. count_step counts (type inc)) [] incidents"

definition getSeverityDistribution :: "incident list \<Rightarrow> nat object" where
  "getSeverityDistribution incidents = foldl (\<lambda>counts inc. count_step counts (severity inc)) [] incidents"

section \<open>Mathematical analysis methods\<close>

definition msPerDay :: rat where
  "msPerDay = 1000 * 60 * 60 * 24"

definition calculateTimeSpan :: "incident list \<Rightarrow> int" where
  "calculateTimeSpan incidents =
     (if length incidents < 2 then 0
      else (let times = sortDefault (map (\<lambda>inc. getTime (dateTime inc)) incidents)
            in last times - hd times))"

definition calculateTimeSpread :: "incident list \<Rightarrow> int" where
  "calculateTimeSpread incidents =
     (if length incidents < 2 then 0
      else (let times = sortDefault (map (\<lambda>inc. getTime (dateTime inc)) incidents)
            in last times - hd times))"

definition calculateCrimeDensity :: "incident list \<Rightarrow> rat" where
  "calculateCrimeDensity incidents =
     (let timeSpan = calculateTimeSpan incidents;
          daysSpan = max 1 (of_int timeSpan / msPerDay)
      in of_nat (length incidents) / daysSpan)"

definition severityMap :: "string \<Rightarrow> nat" where
  "severityMap s =
     (if s = ''low'' then 1 else if s = ''medium'' then 2 else if s = ''high'' then 3
      else if s = ''critical'' then 4 else 1)"

definition calculateAverageSeverity :: "incident list \<Rightarrow> rat" where
  "calculateAverageSeverity incidents =
     of_nat (foldl (\<lambda>total inc. total + severityMap (severity inc)) 0 incidents) / of_nat (length incidents)"

definition calculateHotspotConfidence :: "nat \<Rightarrow> rat \<Rightarrow> rat \<Rightarrow> int \<Rightarrow> rat" where
  "calculateHotspotConfidence incidentCount density sev timeSpread =
     (let countScore = min 1 (of_nat incidentCount / 10);
          densityScore = min 1 (density / 2);
          severityScore = sev / 4;
          timeScore = (if timeSpread > 0 then min 1 (of_int timeSpread / (30 * 24 * 60 * 60 * 1000)) else 0)
      in countScore * 0.4 + densityScore * 0.3 + severityScore * 0.2 + timeScore * 0.1)"

section \<open>Risk assessment methods\<close>

definition categorizeRiskLevel :: "rat \<Rightarrow> string" where
  "categorizeRiskLevel score =
     (if score \<ge> 0.7 then ''high'' else if score \<ge> 0.5 then ''medium'' else ''low'')"

definition assessRiskLevel :: "rat \<Rightarrow> rat \<Rightarrow> nat \<Rightarrow> string" where
  "assessRiskLevel conf sev incidentCount =
     (let riskScore = conf * 0.4 + sev / 4 * 0.4 + min 1 (of_nat incidentCount / 10) * 0.2
      in categorizeRiskLevel riskScore)"

text \<open>
  \<open>new Date()\<close> is the parameter \<open>now\<close> (milliseconds), the same for every call made
  during one run.
\<close>

definition getRecentActivityLevel :: "int \<Rightarrow> incident list \<Rightarrow> rat" where
  "getRecentActivityLevel now incidents =
     (let recentIncidents = filter (\<lambda>inc. of_int (now - getTime (dateTime inc)) / msPerDay \<le> 7) incidents
      in min 1 (of_nat (length recentIncidents) / of_nat (length incidents) * 2))"

definition calculateRiskScore :: "int \<Rightarrow> incident list \<Rightarrow> rat" where
  "calculateRiskScore now incidents =
     (let severityScore = calculateAverageSeverity incidents / 4;
          frequencyScore = min 1 (of_nat (length incidents) / 10);
          recentActivityScore = getRecentActivityLevel now incidents
      in severityScore * 0.4 + frequencyScore * 0.4 + recentActivityScore * 0.2)"

definition count_greater :: "nat object \<Rightarrow> string \<times> nat \<Rightarrow> string \<times> nat \<Rightarrow> bool" where
  "count_greater counts a b =
     (case (lookup counts (fst a), lookup counts (fst b)) of
        (Some x, Some y) \<Rightarrow> x > y
      | _ \<Rightarrow> False)"

definition classifyHotspotType :: "incident list \<Rightarrow> error + string" where
  "classifyHotspotType incidents =
     (let crimeTypes = getCrimeTypeDistribution incidents
      in case reduce1 (\<lambda>a b. if count_greater crimeTypes a b then a else b) (Object_entries crimeTypes) of
           Inl e \<Rightarrow> Inl e
         | Inr dominantType \<Rightarrow> Inr (fst dominantType))"

section \<open>Pattern detectors\<close>

text \<open>
  A loop that pushes patterns onto an array and is left by the first throw.
\<close>

fun collectE :: "('a \<Rightarrow> error + 'b list) \<Rightarrow> 'a list \<Rightarrow> error + 'b list" where
  "collectE f [] = Inr []"
| "collectE f (x # xs) =
     (case f x of
        Inl e \<Rightarrow> Inl e
      | Inr ys \<Rightarrow> (case collectE f xs of Inl e \<Rightarrow> Inl e | Inr zs \<Rightarrow> Inr (ys @ zs)))"

subsection \<open>Hotspots\<close>

definition hotspotOfGroup :: "string \<Rightarrow> incident list \<Rightarrow> error + pattern list" where
  "hotspotOfGroup loc locationIncidents =
     (if length locationIncidents \<ge> 3 then
        (let density = calculateCrimeDensity locationIncidents;
             sev = calculateAverageSeverity locationIncidents;
             timeSpread = calculateTimeSpread locationIncidents;
             conf = calculateHotspotConfidence (length locationIncidents) density sev timeSpread
         in if conf \<ge> 0.4 then
              (case classifyHotspotType locationIncidents of
                 Inl e \<Rightarrow> Inl e
               | Inr dominant \<Rightarrow>
                   Inr [\<lparr>ptype = ''hotspot'', subtype = Some dominant, confidence = conf,
                         plocation = loc,
                         statistics = HotspotStats (length locationIncidents) density sev timeSpread
                                        (getCrimeTypeDistribution locationIncidents),
                         relatedIncidents = map ident locationIncidents,
                         riskLevel = assessRiskLevel conf sev (length locationIncidents)\<rparr>])
            else Inr [])
      else Inr [])"

definition detectCrimeHotspots :: "incident list \<Rightarrow> error + pattern list" where
  "detectCrimeHotspots incidents =
     (case groupByLocation incidents of
        Inl e \<Rightarrow> Inl e
      | Inr locationGroups \<Rightarrow>
          collectE (\<lambda>entry. hotspotOfGroup (fst entry) (snd entry)) (Object_entries locationGroups))"

subsection \<open>Temporal patterns\<close>

text \<open>The comparator \<open>([,a], [,b]) => b - a\<close>.\<close>

definition byCountDesc :: "string \<times> nat \<Rightarrow> string \<times> nat \<Rightarrow> rat" where
  "byCountDesc x y = of_nat (snd y) - of_nat (snd x)"

definition hourlyPattern :: "incident list \<Rightarrow> string \<times> nat \<Rightarrow> pattern list" where
  "hourlyPattern incidents entry =
     (let hour = fst entry; cnt = snd entry
      in if cnt \<ge> 3 then
           (let conf = min 0.9 (of_nat cnt / of_nat (length incidents) * 4)
            in [\<lparr>ptype = ''temporal-pattern'', subtype = Some ''hourly'', confidence = conf,
                  plocation = ''Multiple locations'',
                  statistics = HourlyStats (parseInt hour) cnt
                                 (toFixed1 (of_nat cnt / of_nat (length incidents) * 100)),
                  relatedIncidents =
                    map ident (filter (\<lambda>inc. Some (getHours (dateTime inc)) = parseInt hour) incidents),
                  riskLevel = (if conf > 0.7 then ''high'' else if conf > 0.5 then ''medium'' else ''low'')\<rparr>])
         else [])"

definition hourCounts :: "incident list \<Rightarrow> nat object" where
  "hourCounts incidents =
     foldl (\<lambda>counts inc. count_step counts (toString (int (getHours (dateTime inc))))) [] incidents"

definition detectHourlyPatterns :: "incident list \<Rightarrow> pattern list" where
  "detectHourlyPatterns incidents =
     (let sortedHours = take 3 (sortBy byCountDesc (Object_entries (hourCounts incidents)))
      in concat (map (hourlyPattern incidents) sortedHours))"

text \<open>\<open>names[key]\<close> for an array of names and a property key.\<close>

definition nameAt :: "string list \<Rightarrow> string \<Rightarrow> string option" where
  "nameAt names key =
     (case array_index key of
        Some i \<Rightarrow> (if i < length names then Some (names ! i) else None)
      | None \<Rightarrow> None)"

definition dayNames :: "string list" where
  "dayNames = [''Sunday'', ''Monday'', ''Tuesday'', ''Wednesday'', ''Thursday'', ''Friday'', ''Saturday'']"

definition dailyPattern :: "incident list \<Rightarrow> string \<times> nat \<Rightarrow> pattern list" where
  "dailyPattern incidents entry =
     (let day = fst entry; cnt = snd entry
      in if cnt \<ge> 3 then
           (let conf = min 0.85 (of_nat cnt / of_nat (length incidents) * 3)
            in [\<lparr>ptype = ''temporal-pattern'', subtype = Some ''daily'', confidence = conf,
                  plocation = ''Multiple locations'',
                  statistics = DailyStats (nameAt dayNames day) cnt
                                 (toFixed1 (of_nat cnt / of_nat (length incidents) * 100)),
                  relatedIncidents =
                    map ident (filter (\<lambda>inc. Some (getDay (dateTime inc)) = parseInt day) incidents),
                  riskLevel = (if conf > 0.7 then ''high'' else if conf > 0.5 then ''medium'' else ''low'')\<rparr>])
         else [])"

definition dayCounts :: "incident list \<Rightarrow> nat object" where
  "dayCounts incidents =
     foldl (\<lambda>counts inc. count_step counts (toString (int (getDay (dateTime inc))))) [] incidents"

definition detectDailyPatterns :: "incident list \<Rightarrow> pattern list" where
  "detectDailyPatterns incidents =
     (let sortedDays = take 2 (sortBy byCountDesc (Object_entries (dayCounts incidents)))
      in concat (map (dailyPattern incidents) sortedDays))"

definition monthNames :: "string list" where
  "monthNames = [''January'', ''February'', ''March'', ''April'', ''May'', ''June'',
                 ''July'', ''August'', ''September'', ''October'', ''November'', ''December'']"

definition monthCounts :: "incident list \<Rightarrow> nat object" where
  "monthCounts incidents =
     foldl (\<lambda>counts inc. count_step counts (toString (int (getMonth (dateTime inc))))) [] incidents"

definition seasonalPattern :: "incident list \<Rightarrow> string \<times> nat \<Rightarrow> pattern list" where
  "seasonalPattern incidents maxMonth =
     (if snd maxMonth \<ge> 4 then
        (let conf = min 0.8 (of_nat (snd maxMonth) / of_nat (length incidents) * 2)
         in [\<lparr>ptype = ''temporal-pattern'', subtype = Some ''seasonal'', confidence = conf,
               plocation = ''Multiple locations'',
               statistics = SeasonalStats (nameAt monthNames (fst maxMonth)) (snd maxMonth)
                              (toFixed1 (of_nat (snd maxMonth) / of_nat (length incidents) * 100)),
               relatedIncidents =
                 map ident (filter (\<lambda>inc. Some (getMonth (dateTime inc)) = parseInt (fst maxMonth)) incidents),
               riskLevel = (if conf > 0.6 then ''medium'' else ''low'')\<rparr>])
      else [])"

definition detectSeasonalPatterns :: "incident list \<Rightarrow> error + pattern list" where
  "detectSeasonalPatterns incidents =
     (let counts = monthCounts incidents
      in case reduce1 (\<lambda>a b. if count_greater counts a b then a else b) (Object_entries counts) of
           Inl e \<Rightarrow> Inl e
         | Inr maxMonth \<Rightarrow> Inr (seasonalPattern incidents maxMonth))"

definition analyzeTemporalPatterns :: "incident list \<Rightarrow> error + pattern list" where
  "analyzeTemporalPatterns incidents =
     (let hourlyPatterns = detectHourlyPatterns incidents;
          dailyPatterns = detectDailyPatterns incidents
      in case detectSeasonalPatterns incidents of
           Inl e \<Rightarrow> Inl e
         | Inr seasonalPatterns \<Rightarrow> Inr (hourlyPatterns @ dailyPatterns @ seasonalPatterns))"

subsection \<open>Crime series\<close>

definition findCrimeClusters :: "incident list \<Rightarrow> incident list list" where
  "findCrimeClusters incidents = [incidents]"

definition calculateSeriesConfidence :: "incident list \<Rightarrow> rat" where
  "calculateSeriesConfidence cluster = min 0.9 (of_nat (length cluster) / 5 * 0.8)"

definition seriesOfCluster :: "string \<Rightarrow> incident list \<Rightarrow> pattern list" where
  "seriesOfCluster crimeType cluster =
     (if length cluster \<ge> 3 then
        (let conf = calculateSeriesConfidence cluster
         in if conf \<ge> 0.5 then
              [\<lparr>ptype = ''crime-series'', subtype = Some crimeType, confidence = conf,
                plocation = ''Multiple locations'',
                statistics = SeriesStats (length cluster) (calculateTimeSpan cluster) 1 ''stable'',
                relatedIncidents = map ident cluster,
                riskLevel = categorizeRiskLevel conf\<rparr>]
            else [])
      else [])"

definition seriesOfType :: "string \<times> incident list \<Rightarrow> pattern list" where
  "seriesOfType entry =
     (if length (snd entry) \<ge> 3
      then concat (map (seriesOfCluster (fst entry)) (findCrimeClusters (snd entry)))
      else [])"

definition detectCrimeSeries :: "incident list \<Rightarrow> pattern list" where
  "detectCrimeSeries incidents =
     concat (map seriesOfType (Object_entries (groupByCrimeType incidents)))"

subsection \<open>Geographic clusters\<close>

record locationItem =
  item_id :: string
  item_location :: string
  item_type :: string
  item_severity :: string
  item_dateTime :: date

text \<open>
  The items carry \<open>coordinates: estimateCoordinates(inc.location)\<close>, which reads
  \<open>inc.location.length\<close>: a \<open>TypeError\<close> when the location is missing.
\<close>

definition locationItemOf :: "incident \<Rightarrow> error + locationItem list" where
  "locationItemOf inc =
     (case location inc of
        None \<Rightarrow> Inl TypeError
      | Some l \<Rightarrow> Inr [\<lparr>item_id = ident inc, item_location = l, item_type = type inc,
                         item_severity = severity inc, item_dateTime = dateTime inc\<rparr>])"

definition clusterByDistance :: "locationItem list \<Rightarrow> rat \<Rightarrow> locationItem list list" where
  "clusterByDistance locationData maxDistance = [locationData]"

definition calculateClusterConfidence :: "locationItem list \<Rightarrow> rat" where
  "calculateClusterConfidence cluster = min 0.8 (of_nat (length cluster) / 8)"

definition patternOfCluster :: "locationItem list \<Rightarrow> pattern list" where
  "patternOfCluster cluster =
     (if length cluster \<ge> 4 then
        (let conf = calculateClusterConfidence cluster
         in if conf \<ge> 0.4 then
              [\<lparr>ptype = ''geographic-cluster'', subtype = None, confidence = conf,
                plocation = ''Central Area'',
                statistics = ClusterStats (length cluster) 500 (of_nat (length cluster) / 1000) [],
                relatedIncidents = map item_id cluster,
                riskLevel = categorizeRiskLevel conf\<rparr>]
            else [])
      else [])"

definition performGeographicClustering :: "incident list \<Rightarrow> error + pattern list" where
  "performGeographicClustering incidents =
     (case collectE locationItemOf incidents of
        Inl e \<Rightarrow> Inl e
      | Inr locationData \<Rightarrow>
          Inr (concat (map patternOfCluster (clusterByDistance locationData 1000))))"

subsection \<open>Predictive hotspots\<close>

record trend =
  currentCount :: nat
  isIncreasing :: bool
  trendConfidence :: rat
  growthRate :: rat
  trendIncidents :: "incident list"

definition trendOfGroup :: "trend object \<Rightarrow> string \<times> incident list \<Rightarrow> trend object" where
  "trendOfGroup trends entry =
     (let locationIncidents = snd entry
      in if length locationIncidents \<ge> 2 then
           assign trends (fst entry)
             \<lparr>currentCount = length locationIncidents,
              isIncreasing = True,
              trendConfidence = min 0.8 (of_nat (length locationIncidents) / 5),
              growthRate = 0.1,
              trendIncidents = locationIncidents\<rparr>
         else trends)"

definition analyzeTrends :: "incident list \<Rightarrow> error + trend object" where
  "analyzeTrends incidents =
     (case groupByLocation incidents of
        Inl e \<Rightarrow> Inl e
      | Inr locationGroups \<Rightarrow> Inr (foldl trendOfGroup [] (Object_entries locationGroups)))"

definition predictionOfTrend :: "string \<times> trend \<Rightarrow> pattern list" where
  "predictionOfTrend entry =
     (let loc = fst entry; t = snd entry
      in if isIncreasing t \<and> trendConfidence t \<ge> 0.6 then
           [\<lparr>ptype = ''predictive-hotspot'', subtype = None,
             confidence = trendConfidence t * 0.8,
             plocation = loc,
             statistics = PredictiveStats (currentCount t) ''increasing'' (growthRate t) ''7-14 days'',
             relatedIncidents = map ident (trendIncidents t),
             riskLevel = categorizeRiskLevel (trendConfidence t)\<rparr>]
         else [])"

definition predictFutureHotspots :: "int \<Rightarrow> incident list \<Rightarrow> error + pattern list" where
  "predictFutureHotspots now incidents =
     (let recentIncidents =
            filter (\<lambda>inc. of_int (now - getTime (dateTime inc)) / msPerDay \<le> 14) incidents
      in case analyzeTrends recentIncidents of
           Inl e \<Rightarrow> Inl e
         | Inr locationTrends \<Rightarrow> Inr (concat (map predictionOfTrend (Object_entries locationTrends))))"

subsection \<open>Area risk\<close>

definition riskOfGroup :: "int \<Rightarrow> string \<times> incident list \<Rightarrow> pattern list" where
  "riskOfGroup now entry =
     (let loc = fst entry; locationIncidents = snd entry;
          score = calculateRiskScore now locationIncidents;
          level = categorizeRiskLevel score
      in if score \<ge> 0.5 then
           [\<lparr>ptype = ''risk-assessment'', subtype = None,
             confidence = min 0.9 (score + 0.1),
             plocation = loc,
             statistics = RiskStats score level (length locationIncidents)
                            (getSeverityDistribution locationIncidents)
                            (getRecentActivityLevel now locationIncidents),
             relatedIncidents = map ident locationIncidents,
             riskLevel = level\<rparr>]
         else [])"

definition assessAreaRisk :: "int \<Rightarrow> incident list \<Rightarrow> error + pattern list" where
  "assessAreaRisk now incidents =
     (case groupByLocation incidents of
        Inl e \<Rightarrow> Inl e
      | Inr locationGroups \<Rightarrow> Inr (concat (map (riskOfGroup now) (Object_entries locationGroups))))"

section \<open>Statistics and the orchestrator\<close>

record advancedStats =
  patternsDetected :: "nat object"
  confidenceDistribution :: "nat object"
  riskLevelDistribution :: "nat object"

record runStatistics =
  totalIncidents :: nat
  timeRange :: "(date \<times> date) option"
  crimeTypes :: "nat object"
  severityDistribution :: "nat object"
  advanced :: "advancedStats option"

definition generateBasicStats :: "incident list \<Rightarrow> runStatistics" where
  "generateBasicStats incidents =
     \<lparr>totalIncidents = length incidents,
      timeRange = (if length incidents > 0
                   then Some (dateTime (last incidents), dateTime (hd incidents)) else None),
      crimeTypes = getCrimeTypeDistribution incidents,
      severityDistribution = getSeverityDistribution incidents,
      advanced = None\<rparr>"

text \<open>
  The results of the six detectors, in the order of the keys of \<open>analysisResults\<close>.
\<close>

record analysisResults =
  hotspots :: "pattern list"
  temporalPatterns :: "pattern list"
  crimeSeries :: "pattern list"
  geographicClusters :: "pattern list"
  predictiveHotspots :: "pattern list"
  riskAssessment :: "pattern list"

definition allResults :: "analysisResults \<Rightarrow> pattern list" where
  "allResults r =
     hotspots r @ temporalPatterns r @ crimeSeries r @ geographicClusters r
     @ predictiveHotspots r @ riskAssessment r"

definition calculateConfidenceDistribution :: "analysisResults \<Rightarrow> nat object" where
  "calculateConfidenceDistribution r =
     (let allPatterns = allResults r
      in [(''high'', length (filter (\<lambda>p. confidence p \<ge> 0.7) allPatterns)),
          (''medium'', length (filter (\<lambda>p. \<not> confidence p \<ge> 0.7 \<and> confidence p \<ge> 0.5) allPatterns)),
          (''low'', length (filter (\<lambda>p. \<not> confidence p \<ge> 0.7 \<and> \<not> confidence p \<ge> 0.5) allPatterns))])"

definition calculateRiskDistribution :: "analysisResults \<Rightarrow> nat object" where
  "calculateRiskDistribution r =
     (let allPatterns = allResults r
      in [(''high'', length (filter (\<lambda>p. riskLevel p = ''high'') allPatterns)),
          (''medium'', length (filter (\<lambda>p. riskLevel p = ''medium'') allPatterns)),
          (''low'', length (filter (\<lambda>p. riskLevel p = ''low'') allPatterns))])"

definition generateAdvancedStats :: "incident list \<Rightarrow> analysisResults \<Rightarrow> runStatistics" where
  "generateAdvancedStats incidents r =
     (generateBasicStats incidents)
       \<lparr>advanced := Some
          \<lparr>patternsDetected =
             [(''hotspots'', length (hotspots r)),
              (''temporalPatterns'', length (temporalPatterns r)),
              (''crimeSeries'', length (crimeSeries r)),
              (''geographicClusters'', length (geographicClusters r)),
              (''predictiveHotspots'', length (predictiveHotspots r)),
              (''riskAssessments'', length (riskAssessment r))],
           confidenceDistribution = calculateConfidenceDistribution r,
           riskLevelDistribution = calculateRiskDistribution r\<rparr>\<rparr>"

record metadata =
  analysisDate :: int
  metaTotalIncidents :: nat
  algorithmsUsed :: "string list"

record analysisResult =
  success :: bool
  message :: "string option"
  patterns :: "pattern list"
  resultStatistics :: runStatistics
  resultMetadata :: "metadata option"

text \<open>The six detectors, run in the order of the source; the first throw ends the run.\<close>

definition runDetectors :: "int \<Rightarrow> incident list \<Rightarrow> error + analysisResults" where
  "runDetectors now incidents =
     (case detectCrimeHotspots incidents of Inl e \<Rightarrow> Inl e | Inr hs \<Rightarrow>
      case analyzeTemporalPatterns incidents of Inl e \<Rightarrow> Inl e | Inr ts \<Rightarrow>
      case performGeographicClustering incidents of Inl e \<Rightarrow> Inl e | Inr gs \<Rightarrow>
      case predictFutureHotspots now incidents of Inl e \<Rightarrow> Inl e | Inr ps \<Rightarrow>
      case assessAreaRisk now incidents of Inl e \<Rightarrow> Inl e | Inr rs \<Rightarrow>
        Inr \<lparr>hotspots = hs, temporalPatterns = ts, crimeSeries = detectCrimeSeries incidents,
             geographicClusters = gs, predictiveHotspots = ps, riskAssessment = rs\<rparr>)"

text \<open>The comparator of the final sort.\<close>

definition comparePatterns :: "pattern \<Rightarrow> pattern \<Rightarrow> rat" where
  "comparePatterns a b =
     (if confidence b \<noteq> confidence a then confidence b - confidence a
      else of_nat (length (relatedIncidents b)) - of_nat (length (relatedIncidents a)))"

text \<open>
  \<open>runComprehensiveAnalysis\<close>. The option \<open>minConfidence\<close> is \<open>None\<close> when the caller
  leaves it out (the default 0.5 applies). The options \<open>timeRange\<close>, \<open>location\<close> and
  \<open>crimeTypes\<close> only select what the incident store returns; the list \<open>incidents\<close> is
  that answer, the filtered incident set.
\<close>

definition runComprehensiveAnalysis :: "int \<Rightarrow> rat option \<Rightarrow> incident list \<Rightarrow> error + analysisResult" where
  "runComprehensiveAnalysis now minConfidenceOpt incidents =
     (let minConfidence = (case minConfidenceOpt of None \<Rightarrow> 0.5 | Some m \<Rightarrow> m)
      in if length incidents < 3 then
           Inr \<lparr>success = False,
                message = Some ''Insufficient data for meaningful analysis'',
                patterns = [],
                resultStatistics = generateBasicStats incidents,
                resultMetadata = None\<rparr>
         else
           (case runDetectors now incidents of
              Inl e \<Rightarrow> Inl e
            | Inr results \<Rightarrow>
                (let allPatterns = filter (\<lambda>p. confidence p \<ge> minConfidence) (allResults results)
                 in Inr \<lparr>success = True,
                         message = None,
                         patterns = sortBy comparePatterns allPatterns,
                         resultStatistics = generateAdvancedStats incidents results,
                         resultMetadata = Some
                           \<lparr>analysisDate = now,
                            metaTotalIncidents = length incidents,
                            algorithmsUsed = [''hotspots'', ''temporalPatterns'', ''crimeSeries'',
                                              ''geographicClusters'', ''predictiveHotspots'',
                                              ''riskAssessment'']\<rparr>\<rparr>)))"

section \<open>Notions used to state the properties\<close>

text \<open>The key under which \<open>groupByLocation\<close> files an incident.\<close>

definition locationKey :: "incident \<Rightarrow> string option" where
  "locationKey inc = map_option (\<lambda>l. trim (toLowerCase l)) (location inc)"

text \<open>
  An incident can be filed by \<open>groupByLocation\<close>: it has a location, and its key is not
  the name of an inherited property.
\<close>

definition groupable :: "incident \<Rightarrow> bool" where
  "groupable inc \<longleftrightarrow>
     (case locationKey inc of None \<Rightarrow> False | Some k \<Rightarrow> \<not> inheritedProperty k)"

text \<open>
  An object groups the list \<open>xs\<close> by \<open>key\<close>: its keys are distinct, and under each key
  that occurs it holds the elements with that key, in the order of \<open>xs\<close>.
\<close>

definition groupedBy :: "('a \<Rightarrow> string option) \<Rightarrow> 'a list \<Rightarrow> 'a list object \<Rightarrow> bool" where
  "groupedBy key xs groups \<longleftrightarrow>
     distinct (map fst groups) \<and>
     (\<forall>k. lookup groups k =
        (if filter (\<lambda>x. key x = Some k) xs = [] then None
         else Some (filter (\<lambda>x. key x = Some k) xs)))"

text \<open>An object counts the elements of \<open>xs\<close> by \<open>key\<close>.\<close>

definition countedBy :: "('a \<Rightarrow> string) \<Rightarrow> 'a list \<Rightarrow> nat object \<Rightarrow> bool" where
  "countedBy key xs counts \<longleftrightarrow>
     distinct (map fst counts) \<and>
     (\<forall>k. lookup counts k =
        (if length (filter (\<lambda>x. key x = k) xs) = 0 then None
         else Some (length (filter (\<lambda>x. key x = k) xs))))"

text \<open>
  A pattern is well formed for a filtered incident set: its confidence is in [0, 1], and
  its related incidents are a non-empty list of identifiers of incidents of the set.
\<close>

definition wellFormedPattern :: "incident list \<Rightarrow> pattern \<Rightarrow> bool" where
  "wellFormedPattern incidents p \<longleftrightarrow>
     0 \<le> confidence p \<and> confidence p \<le> 1 \<and>
     relatedIncidents p \<noteq> [] \<and>
     set (relatedIncidents p) \<subseteq> ident ` set incidents"

text \<open>
  The key by which the final sort orders the patterns: confidence descending, then the
  number of related incidents descending (pairs are ordered lexicographically).
\<close>

definition rankKey :: "pattern \<Rightarrow> rat \<times> int" where
  "rankKey p = (- confidence p, - int (length (relatedIncidents p)))"

text \<open>The incidents of a set that fall at a given hour of the day.\<close>

definition hourBucket :: "incident list \<Rightarrow> nat \<Rightarrow> incident list" where
  "hourBucket incidents h = filter (\<lambda>i. getHours (dateTime i) = h) incidents"

text \<open>The incidents of the last 14 days, as \<open>predictFutureHotspots\<close> selects them.\<close>

definition recentIncidents :: "int \<Rightarrow> incident list \<Rightarrow> incident list" where
  "recentIncidents now incidents =
     filter (\<lambda>inc. of_int (now - getTime (dateTime inc)) / msPerDay \<le> 14) incidents"

text \<open>The incidents of a set that are filed under a location key.\<close>

definition locationGroup :: "incident list \<Rightarrow> string \<Rightarrow> incident list" where
  "locationGroup incidents loc = filter (\<lambda>i. locationKey i = Some loc) incidents"

text \<open>
  The distinct elements of a list in the order of their first occurrence: the order in
  which a counting loop creates the keys of its object.
\<close>

fun firstOccurrences :: "'a list \<Rightarrow> 'a list" where
  "firstOccurrences [] = []"
| "firstOccurrences (x # xs) = x # filter (\<lambda>y. y \<noteq> x) (firstOccurrences xs)"

text \<open>
  The hotspot confidence in the words of the specification: the time spread is the time
  from the earliest to the latest incident of the group, the density is the count divided
  by \<open>max(1, days spanned)\<close>, and the confidence is
  \<open>0.4 * min(1, count/10) + 0.3 * min(1, density/2) + 0.2 * (averageSeverity/4) +
  0.1 * min(1, timeSpreadMs / (30 days in ms))\<close>.
\<close>

definition specTimeSpreadMs :: "incident list \<Rightarrow> int" where
  "specTimeSpreadMs incidents =
     (let times = map (\<lambda>inc. getTime (dateTime inc)) incidents
      in foldl max (hd times) (tl times) - foldl min (hd times) (tl times))"

definition specHotspotConfidence :: "incident list \<Rightarrow> rat" where
  "specHotspotConfidence incidents =
     (let cnt = of_nat (length incidents);
          spread = of_int (specTimeSpreadMs incidents);
          density = cnt / max 1 (spread / msPerDay)
      in 0.4 * min 1 (cnt / 10) + 0.3 * min 1 (density / 2)
         + 0.2 * (calculateAverageSeverity incidents / 4)
         + 0.1 * min 1 (spread / (30 * msPerDay)))"

section \<open>Example inputs\<close>

definition mkDate :: "int \<Rightarrow> nat \<Rightarrow> nat \<Rightarrow> nat \<Rightarrow> date" where
  "mkDate t h d m = \<lparr>getTime = t, getHours = h, getDay = d, getMonth = m\<rparr>"

definition mkIncident :: "string \<Rightarrow> string \<Rightarrow> string \<Rightarrow> string option \<Rightarrow> date \<Rightarrow> incident" where
  "mkIncident i t s l d = \<lparr>ident = i, type = t, severity = s, location = l, dateTime = d\<rparr>"

text \<open>Two incidents without a location.\<close>

definition twoUnlocated :: "incident list" where
  "twoUnlocated =
     [mkIncident ''a1'' ''theft'' ''low'' None (mkDate 1700000000000 2 2 10),
      mkIncident ''a2'' ''assault'' ''high'' None (mkDate 1700003600000 3 2 10)]"

text \<open>Three incidents, the second one without a location.\<close>

definition threeOneUnlocated :: "incident list" where
  "threeOneUnlocated =
     [mkIncident ''b1'' ''theft'' ''low'' (Some ''Main St'') (mkDate 1700000000000 2 2 10),
      mkIncident ''b2'' ''theft'' ''medium'' None (mkDate 1700003600000 3 2 10),
      mkIncident ''b3'' ''theft'' ''high'' (Some ''Main St'') (mkDate 1700007200000 4 2 10)]"

text \<open>Four incidents at four different places, a day apart.\<close>

definition fourPlaces :: "incident list" where
  "fourPlaces =
     [mkIncident ''c1'' ''theft'' ''low'' (Some ''North Rd'') (mkDate 1700000000000 2 2 10),
      mkIncident ''c2'' ''fraud'' ''low'' (Some ''South Rd'') (mkDate 1700086400000 2 3 10),
      mkIncident ''c3'' ''arson'' ''low'' (Some ''East Rd'') (mkDate 1700172800000 2 4 10),
      mkIncident ''c4'' ''theft'' ''low'' (Some ''West Rd'') (mkDate 1700259200000 2 5 10)]"

text \<open>The three patterns found in \<open>fourPlaces\<close>.\<close>

definition fourPlacesHourly :: pattern where
  "fourPlacesHourly =
     \<lparr>ptype = ''temporal-pattern'', subtype = Some ''hourly'', confidence = 9 / 10,
      plocation = ''Multiple locations'', statistics = HourlyStats (Some 2) 4 ''100.0'',
      relatedIncidents = [''c1'', ''c2'', ''c3'', ''c4''], riskLevel = ''high''\<rparr>"

definition fourPlacesSeasonal :: pattern where
  "fourPlacesSeasonal =
     \<lparr>ptype = ''temporal-pattern'', subtype = Some ''seasonal'', confidence = 4 / 5,
      plocation = ''Multiple locations'', statistics = SeasonalStats (Some ''November'') 4 ''100.0'',
      relatedIncidents = [''c1'', ''c2'', ''c3'', ''c4''], riskLevel = ''medium''\<rparr>"

definition fourPlacesCluster :: pattern where
  "fourPlacesCluster =
     \<lparr>ptype = ''geographic-cluster'', subtype = None, confidence = 1 / 2,
      plocation = ''Central Area'', statistics = ClusterStats 4 500 (1 / 250) [],
      relatedIncidents = [''c1'', ''c2'', ''c3'', ''c4''], riskLevel = ''medium''\<rparr>"

definition fourPlacesResults :: analysisResults where
  "fourPlacesResults =
     \<lparr>hotspots = [], temporalPatterns = [fourPlacesHourly, fourPlacesSeasonal], crimeSeries = [],
      geographicClusters = [fourPlacesCluster], predictiveHotspots = [], riskAssessment = []\<rparr>"

text \<open>
  Five thefts at five different places, four of them in November and one in October.
\<close>

definition fiveThefts :: "incident list" where
  "fiveThefts =
     [mkIncident ''d1'' ''theft'' ''low'' (Some ''Pine St'') (mkDate 1700000000000 1 0 10),
      mkIncident ''d2'' ''theft'' ''low'' (Some ''Oak St'') (mkDate 1699900000000 2 1 10),
      mkIncident ''d3'' ''theft'' ''low'' (Some ''Elm St'') (mkDate 1699800000000 3 2 10),
      mkIncident ''d4'' ''theft'' ''low'' (Some ''Ash St'') (mkDate 1699700000000 4 3 10),
      mkIncident ''d5'' ''theft'' ''low'' (Some ''Fir St'') (mkDate 1698700000000 5 4 9)]"

definition fiveTheftsSeasonal :: pattern where
  "fiveTheftsSeasonal =
     \<lparr>ptype = ''temporal-pattern'', subtype = Some ''seasonal'', confidence = 4 / 5,
      plocation = ''Multiple locations'', statistics = SeasonalStats (Some ''November'') 4 ''80.0'',
      relatedIncidents = [''d1'', ''d2'', ''d3'', ''d4''], riskLevel = ''medium''\<rparr>"

definition fiveTheftsSeries :: pattern where
  "fiveTheftsSeries =
     \<lparr>ptype = ''crime-series'', subtype = Some ''theft'', confidence = 4 / 5,
      plocation = ''Multiple locations'', statistics = SeriesStats 5 1300000000 1 ''stable'',
      relatedIncidents = [''d1'', ''d2'', ''d3'', ''d4'', ''d5''], riskLevel = ''high''\<rparr>"

definition fiveTheftsCluster :: pattern where
  "fiveTheftsCluster =
     \<lparr>ptype = ''geographic-cluster'', subtype = None, confidence = 5 / 8,
      plocation = ''Central Area'', statistics = ClusterStats 5 500 (1 / 200) [],
      relatedIncidents = [''d1'', ''d2'', ''d3'', ''d4'', ''d5''], riskLevel = ''medium''\<rparr>"

definition fiveTheftsResults :: analysisResults where
  "fiveTheftsResults =
     \<lparr>hotspots = [], temporalPatterns = [fiveTheftsSeasonal], crimeSeries = [fiveTheftsSeries],
      geographicClusters = [fiveTheftsCluster], predictiveHotspots = [], riskAssessment = []\<rparr>"

text \<open>
  The result of the run over \<open>fiveThefts\<close> at time 1700100000000 with the default
  \<open>minConfidence\<close>: the series pattern (5 related incidents) comes before the seasonal
  pattern (4 related incidents) of the same confidence, which was emitted first.
\<close>

definition fiveTheftsResult :: analysisResult where
  "fiveTheftsResult =
     \<lparr>success = True, message = None,
      patterns = [fiveTheftsSeries, fiveTheftsSeasonal, fiveTheftsCluster],
      resultStatistics = generateAdvancedStats fiveThefts fiveTheftsResults,
      resultMetadata = Some \<lparr>analysisDate = 1700100000000, metaTotalIncidents = 5,
        algorithmsUsed = [''hotspots'', ''temporalPatterns'', ''crimeSeries'',
                          ''geographicClusters'', ''predictiveHotspots'', ''riskAssessment'']\<rparr>\<rparr>"

text \<open>Ten incidents, five of them at hour 2.\<close>

definition tenIncidents :: "incident list" where
  "tenIncidents =
     [mkIncident ''e1'' ''theft'' ''low'' (Some ''Dock 1'') (mkDate 1700000000000 2 0 10),
      mkIncident ''e2'' ''fraud'' ''low'' (Some ''Dock 2'') (mkDate 1700000100000 14 0 10),
      mkIncident ''e3'' ''theft'' ''low'' (Some ''Dock 3'') (mkDate 1700000200000 2 1 10),
      mkIncident ''e4'' ''arson'' ''low'' (Some ''Dock 4'') (mkDate 1700000300000 9 1 10),
      mkIncident ''e5'' ''theft'' ''low'' (Some ''Dock 5'') (mkDate 1700000400000 2 2 10),
      mkIncident ''e6'' ''fraud'' ''low'' (Some ''Dock 6'') (mkDate 1700000500000 14 2 10),
      mkIncident ''e7'' ''theft'' ''low'' (Some ''Dock 7'') (mkDate 1700000600000 2 3 10),
      mkIncident ''e8'' ''arson'' ''low'' (Some ''Dock 8'') (mkDate 1700000700000 14 3 10),
      mkIncident ''e9'' ''theft'' ''low'' (Some ''Dock 9'') (mkDate 1700000800000 2 4 10),
      mkIncident ''e10'' ''fraud'' ''low'' (Some ''Dock 10'') (mkDate 1700000900000 21 4 10)]"



text \<open>Three incidents of the same days at a place called Constructor.\<close>

definition constructorIncidents :: "incident list" where
  "constructorIncidents =
     [mkIncident ''c1'' ''theft'' ''low'' (Some ''Constructor'') (mkDate 1699900000000 1 0 10),
      mkIncident ''c2'' ''theft'' ''low'' (Some ''Constructor'') (mkDate 1699800000000 2 1 10),
      mkIncident ''c3'' ''theft'' ''low'' (Some ''Constructor'') (mkDate 1699700000000 3 2 10)]"


text \<open>
  Four incidents at one place within an hour, two thefts and two assaults, a theft first.
\<close>

definition tiedTypes :: "incident list" where
  "tiedTypes =
     [mkIncident ''g1'' ''theft'' ''critical'' (Some ''Main St'') (mkDate 1700000000000 1 0 10),
      mkIncident ''g2'' ''assault'' ''critical'' (Some ''Main St'') (mkDate 1700001000000 1 0 10),
      mkIncident ''g3'' ''assault'' ''critical'' (Some ''Main St'') (mkDate 1700002000000 1 0 10),
      mkIncident ''g4'' ''theft'' ''critical'' (Some ''Main St'') (mkDate 1700003000000 1 0 10)]"

definition tiedTypesHotspot :: pattern where
  "tiedTypesHotspot =
     \<lparr>ptype = ''hotspot'', subtype = Some ''assault'', confidence = 28517 / 43200,
      plocation = ''main st'',
      statistics = HotspotStats 4 4 4 3000000 [(''theft'', 2), (''assault'', 2)],
      relatedIncidents = [''g1'', ''g2'', ''g3'', ''g4''], riskLevel = ''high''\<rparr>"

text \<open>
  Eighteen incidents, a minute apart: the first three on a Friday (day 5), the others on
  a Tuesday (day 2).
\<close>

definition boundaryDays :: "incident list" where
  "boundaryDays =
     [mkIncident ''k1'' ''theft'' ''low'' (Some ''Quay'') (mkDate 1700000000000 8 5 10),
      mkIncident ''k2'' ''theft'' ''low'' (Some ''Quay'') (mkDate 1700000060000 8 5 10),
      mkIncident ''k3'' ''theft'' ''low'' (Some ''Quay'') (mkDate 1700000120000 8 5 10),
      mkIncident ''k4'' ''theft'' ''low'' (Some ''Quay'') (mkDate 1700000180000 8 2 10),
      mkIncident ''k5'' ''theft'' ''low'' (Some ''Quay'') (mkDate 1700000240000 8 2 10),
      mkIncident ''k6'' ''theft'' ''low'' (Some ''Quay'') (mkDate 1700000300000 8 2 10),
      mkIncident ''k7'' ''theft'' ''low'' (Some ''Quay'') (mkDate 1700000360000 8 2 10),
      mkIncident ''k8'' ''theft'' ''low'' (Some ''Quay'') (mkDate 1700000420000 8 2 10),
      mkIncident ''k9'' ''theft'' ''low'' (Some ''Quay'') (mkDate 1700000480000 8 2 10),
      mkIncident ''k10'' ''theft'' ''low'' (Some ''Quay'') (mkDate 1700000540000 8 2 10),
      mkIncident ''k11'' ''theft'' ''low'' (Some ''Quay'') (mkDate 1700000600000 8 2 10),
      mkIncident ''k12'' ''theft'' ''low'' (Some ''Quay'') (mkDate 1700000660000 8 2 10),
      mkIncident ''k13'' ''theft'' ''low'' (Some ''Quay'') (mkDate 1700000720000 8 2 10),
      mkIncident ''k14'' ''theft'' ''low'' (Some ''Quay'') (mkDate 1700000780000 8 2 10),
      mkIncident ''k15'' ''theft'' ''low'' (Some ''Quay'') (mkDate 1700000840000 8 2 10),
      mkIncident ''k16'' ''theft'' ''low'' (Some ''Quay'') (mkDate 1700000900000 8 2 10),
      mkIncident ''k17'' ''theft'' ''low'' (Some ''Quay'') (mkDate 1700000960000 8 2 10),
      mkIncident ''k18'' ''theft'' ''low'' (Some ''Quay'') (mkDate 1700001020000 8 2 10)]"

definition boundaryFriday :: pattern where
  "boundaryFriday =
     \<lparr>ptype = ''temporal-pattern'', subtype = Some ''daily'', confidence = 1 / 2,
      plocation = ''Multiple locations'', statistics = DailyStats (Some ''Friday'') 3 ''16.7'',
      relatedIncidents = [''k1'', ''k2'', ''k3''], riskLevel = ''low''\<rparr>"

definition boundaryTuesday :: pattern where
  "boundaryTuesday =
     \<lparr>ptype = ''temporal-pattern'', subtype = Some ''daily'', confidence = 17 / 20,
      plocation = ''Multiple locations'', statistics = DailyStats (Some ''Tuesday'') 15 ''83.3'',
      relatedIncidents = [''k4'', ''k5'', ''k6'', ''k7'', ''k8'', ''k9'', ''k10'', ''k11'', ''k12'',
                          ''k13'', ''k14'', ''k15'', ''k16'', ''k17'', ''k18''],
      riskLevel = ''high''\<rparr>"

text \<open>
  Three incidents at one place, at midnight (UTC) of 7, 8 and 10 September 2001. The
  timestamp of the last one has 13 digits, those of the first two have 12.
\<close>

definition september2001 :: "incident list" where
  "september2001 =
     [mkIncident ''s1'' ''theft'' ''low'' (Some ''Main St'') (mkDate 999820800000 0 5 8),
      mkIncident ''s2'' ''theft'' ''low'' (Some ''Main St'') (mkDate 999907200000 0 6 8),
      mkIncident ''s3'' ''theft'' ''low'' (Some ''Main St'') (mkDate 1000080000000 0 1 8)]"

definition septemberHotspot :: pattern where
  "septemberHotspot =
     \<lparr>ptype = ''hotspot'', subtype = Some ''theft'', confidence = 47 / 100,
      plocation = ''main st'',
      statistics = HotspotStats 3 3 1 (- 172800000) [(''theft'', 3)],
      relatedIncidents = [''s1'', ''s2'', ''s3''], riskLevel = ''low''\<rparr>"

section \<open>Facts about the JavaScript layer\<close>

lemma lookup_assign: "lookup (assign obj k v) k' = (if k' = k then Some v else lookup obj k')"
  by (induction obj) (auto simp: lookup_def)

lemma keys_assign:
  "map fst (assign obj k v) = (if k \<in> set (map fst obj) then map fst obj else map fst obj @ [k])"
  by (induction obj) (force split: if_splits)+

lemma distinct_keys_assign: "distinct (map fst obj) \<Longrightarrow> distinct (map fst (assign obj k v))"
  by (simp add: keys_assign)

lemma lookup_Some_iff: "distinct (map fst obj) \<Longrightarrow> lookup obj k = Some v \<longleftrightarrow> (k, v) \<in> set obj"
  by (simp add: lookup_def)

lemma lookup_None_iff: "lookup obj k = None \<longleftrightarrow> k \<notin> set (map fst obj)"
  by (simp add: lookup_def map_of_eq_None_iff)

lemma mset_Object_entries: "mset (Object_entries obj) = mset obj"
proof -
  have "mset (filter (\<lambda>e. array_index (fst e) \<noteq> None) obj) + mset (filter (\<lambda>e. array_index (fst e) = None) obj) = mset obj"
    using multiset_partition [of "mset obj" "\<lambda>e. array_index (fst e) \<noteq> None"] by simp
  then show ?thesis by (simp add: Object_entries_def)
qed

lemma set_Object_entries: "set (Object_entries obj) = set obj"
  using mset_Object_entries [of obj] by (metis set_mset_mset)

lemma length_Object_entries: "length (Object_entries obj) = length obj"
  using mset_Object_entries [of obj] by (metis size_mset)

lemma distinct_Object_entries: "distinct (map fst (Object_entries obj)) = distinct (map fst obj)"
proof -
  have "mset (map fst (Object_entries obj)) = mset (map fst obj)"
    by (simp add: mset_Object_entries)
  then show ?thesis by (metis distinct_count_atmost_1 set_mset_mset)
qed

lemma Object_entries_plain:
  "\<forall>e \<in> set obj. array_index (fst e) = None \<Longrightarrow> Object_entries obj = obj"
  by (simp add: Object_entries_def)

lemma digit_char_is_digit: "d < 10 \<Longrightarrow> is_digit (digit_char d)"
proof -
  assume "d < 10"
  then have "d \<in> {0,1,2,3,4,5,6,7,8,9}" by auto
  then show ?thesis by (auto simp: digit_char_def is_digit_def)
qed

lemma digit_val_digit_char: "d < 10 \<Longrightarrow> digit_val (digit_char d) = d"
proof -
  assume "d < 10"
  then have "d \<in> {0,1,2,3,4,5,6,7,8,9}" by auto
  then show ?thesis by (auto simp: digit_char_def digit_val_def)
qed

lemma digits_not_Nil: "digits n \<noteq> []"
  by (subst digits.simps) simp

lemma digits_all_digit: "list_all is_digit (digits n)"
proof (induction n rule: digits.induct)
  case (1 n)
  show ?case
  proof (cases "n < 10")
    case True
    then show ?thesis by (subst digits.simps) (simp add: digit_char_is_digit)
  next
    case False
    with 1 show ?thesis by (subst digits.simps) (simp add: digit_char_is_digit)
  qed
qed

lemma digits_val_snoc: "digits_val (s @ [c]) = digits_val s * 10 + digit_val c"
  by (simp add: digits_val_def)

lemma digits_val_digits: "digits_val (digits n) = n"
proof (induction n rule: digits.induct)
  case (1 n)
  show ?case
  proof (cases "n < 10")
    case True
    then show ?thesis by (subst digits.simps) (simp add: digits_val_def digit_val_digit_char)
  next
    case False
    with 1 show ?thesis
      by (subst digits.simps) (simp add: digits_val_snoc digit_val_digit_char)
  qed
qed

lemma parseInt_toString: "parseInt (toString (int n)) = Some n"
proof -
  have tw: "takeWhile is_digit (digits n) = digits n"
    using digits_all_digit [of n] by (simp add: list_all_iff)
  obtain c cs where cs: "digits n = c # cs"
    using digits_not_Nil [of n] by (cases "digits n") auto
  have "digits_val (c # cs) = n"
    using digits_val_digits [of n] by (simp add: cs)
  then show ?thesis
    using tw by (simp add: parseInt_def toString_def cs)
qed

lemma toString_inj: "toString (int m) = toString (int n) \<longleftrightarrow> m = n"
  by (metis parseInt_toString option.inject)

lemma sortBy_sort_key:
  fixes f :: "'a \<Rightarrow> 'k::linorder"
  assumes "\<And>x y. cmp x y \<le> 0 \<longleftrightarrow> f x \<le> f y"
  shows "sortBy cmp xs = sort_key f xs"
proof -
  have ins: "insertBy cmp x ys = insort_key f x ys" for x ys
    by (induction ys) (simp_all add: assms)
  show ?thesis
    by (induction xs) (simp_all add: sortBy_def ins)
qed

lemma collectE_mem:
  "collectE f xs = Inr ys \<Longrightarrow> y \<in> set ys \<Longrightarrow> \<exists>x \<in> set xs. \<exists>zs. f x = Inr zs \<and> y \<in> set zs"
  by (induction xs arbitrary: ys) (auto split: sum.splits)

lemma collectE_total:
  "\<forall>x \<in> set xs. f x = Inr (g x) \<Longrightarrow> collectE f xs = Inr (concat (map g xs))"
  by (induction xs) auto

lemma collectE_Inl: "x \<in> set xs \<Longrightarrow> f x = Inl e \<Longrightarrow> \<exists>e'. collectE f xs = Inl e'"
  by (induction xs) (auto split: sum.splits)

section \<open>The insufficient-data condition\<close>

text \<open>
  Claim C3. When the filtered incident set has fewer than 3 incidents,
  \<open>runComprehensiveAnalysis\<close> returns at once: \<open>success\<close> is false, the pattern list is
  empty, and the statistics are the basic statistics only (no advanced part, no metadata),
  with \<open>totalIncidents\<close> the number of filtered incidents. No detector runs: the result is
  returned for every such input, also for one on which a detector would throw.
\<close>

theorem insufficient_data_short_circuit:
  "length incidents < 3 \<Longrightarrow>
     runComprehensiveAnalysis now minConfidenceOpt incidents =
       Inr \<lparr>success = False,
            message = Some ''Insufficient data for meaningful analysis'',
            patterns = [],
            resultStatistics = generateBasicStats incidents,
            resultMetadata = None\<rparr>
     \<and> totalIncidents (generateBasicStats incidents) = length incidents
     \<and> advanced (generateBasicStats incidents) = None"
  by (simp add: runComprehensiveAnalysis_def generateBasicStats_def)

theorem insufficient_data_short_circuit_witness:
  "length twoUnlocated < 3
   \<and> runComprehensiveAnalysis 1700000000000 None twoUnlocated =
       Inr \<lparr>success = False,
            message = Some ''Insufficient data for meaningful analysis'',
            patterns = [],
            resultStatistics = generateBasicStats twoUnlocated,
            resultMetadata = None\<rparr>
   \<and> totalIncidents (generateBasicStats twoUnlocated) = 2
   \<and> advanced (generateBasicStats twoUnlocated) = None
   \<and> detectCrimeHotspots twoUnlocated = Inl TypeError"
proof -
  have len: "length twoUnlocated < 3" and len2: "length twoUnlocated = 2"
    by (simp_all add: twoUnlocated_def)
  have thrown: "detectCrimeHotspots twoUnlocated = Inl TypeError"
    by (simp add: detectCrimeHotspots_def groupByLocation_def groupByLocation_step_def
        twoUnlocated_def mkIncident_def)
  show ?thesis
    using insufficient_data_short_circuit [OF len, of 1700000000000 None] len thrown
    by (simp add: len2)
qed

section \<open>Facts about grouping and counting\<close>

lemma groupedBy_empty: "groupedBy key [] []"
  by (simp add: groupedBy_def lookup_def)

lemma groupedBy_step:
  assumes "groupedBy key pre g" and "key x = Some k"
  shows "groupedBy key (pre @ [x])
           (assign g k ((case lookup g k of None \<Rightarrow> [] | Some ms \<Rightarrow> ms) @ [x]))"
  using assms
  by (auto simp: groupedBy_def lookup_assign distinct_keys_assign)

lemma reduceE_groupByLocation:
  "reduceE groupByLocation_step g xs = Inr g' \<Longrightarrow> groupedBy locationKey pre g \<Longrightarrow>
   groupedBy locationKey (pre @ xs) g'"
proof (induction xs arbitrary: g pre)
  case Nil
  then show ?case by simp
next
  case (Cons x xs)
  from Cons.prems(1) obtain l where l: "location x = Some l"
    by (cases "location x") (auto simp: groupByLocation_step_def)
  let ?k = "trim (toLowerCase l)"
  let ?g1 = "assign g ?k ((case lookup g ?k of None \<Rightarrow> [] | Some ms \<Rightarrow> ms) @ [x])"
  from Cons.prems(1) have "\<not> (lookup g ?k = None \<and> inheritedProperty ?k)"
    by (auto simp: groupByLocation_step_def l Let_def split: if_splits)
  then have step: "groupByLocation_step g x = Inr ?g1"
    by (simp add: groupByLocation_step_def l Let_def)
  have "groupedBy locationKey (pre @ [x]) ?g1"
    by (rule groupedBy_step [OF Cons.prems(2)]) (simp add: locationKey_def l)
  moreover have "reduceE groupByLocation_step ?g1 xs = Inr g'"
    using Cons.prems(1) step by simp
  ultimately have "groupedBy locationKey ((pre @ [x]) @ xs) g'"
    by (rule Cons.IH [rotated])
  then show ?case by simp
qed

lemma groupByLocation_grouped:
  "groupByLocation incidents = Inr groups \<Longrightarrow> groupedBy locationKey incidents groups"
  using reduceE_groupByLocation [of "[]" incidents groups "[]"]
  by (simp add: groupByLocation_def groupedBy_empty)

lemma groupable_iff:
  "groupable i \<longleftrightarrow> (\<exists>l. location i = Some l \<and> \<not> inheritedProperty (trim (toLowerCase l)))"
  by (cases "location i") (simp_all add: groupable_def locationKey_def)



lemma reduceE_groupByLocation_ungroupable:
  "\<exists>i \<in> set xs. \<not> groupable i \<Longrightarrow> \<forall>k \<in> set (map fst g). \<not> inheritedProperty k \<Longrightarrow>
   reduceE groupByLocation_step g xs = Inl TypeError"
proof (induction xs arbitrary: g)
  case Nil
  then show ?case by simp
next
  case (Cons x xs)
  show ?case
  proof (cases "groupByLocation_step g x")
    case (Inl e)
    then show ?thesis by (cases e) simp
  next
    case (Inr g1)
    then obtain l where l: "location x = Some l"
      by (cases "location x") (auto simp: groupByLocation_step_def)
    let ?k = "trim (toLowerCase l)"
    from Inr have no: "\<not> (lookup g ?k = None \<and> inheritedProperty ?k)"
      and g1: "g1 = assign g ?k ((case lookup g ?k of None \<Rightarrow> [] | Some ms \<Rightarrow> ms) @ [x])"
      by (auto simp: groupByLocation_step_def l Let_def split: if_splits)
    have fresh: "\<not> inheritedProperty ?k"
    proof
      assume inh: "inheritedProperty ?k"
      with no have "lookup g ?k \<noteq> None" by simp
      then have "?k \<in> set (map fst g)" by (simp add: lookup_None_iff)
      with Cons.prems(2) inh show False by blast
    qed
    then have "groupable x" unfolding groupable_iff using l by simp
    with Cons.prems(1) have rest: "\<exists>i \<in> set xs. \<not> groupable i" by auto
    have "\<forall>k \<in> set (map fst g1). \<not> inheritedProperty k"
      unfolding g1 keys_assign using Cons.prems(2) fresh by (auto split: if_splits)
    from Cons.IH [OF rest this] Inr show ?thesis by simp
  qed
qed

lemma groupByLocation_ungroupable:
  "\<exists>i \<in> set incidents. \<not> groupable i \<Longrightarrow> groupByLocation incidents = Inl TypeError"
  by (simp add: groupByLocation_def reduceE_groupByLocation_ungroupable)

lemma reduceE_groupByLocation_throws:
  "\<exists>i \<in> set xs. location i = None \<Longrightarrow> reduceE groupByLocation_step g xs = Inl TypeError"
proof (induction xs arbitrary: g)
  case Nil
  then show ?case by simp
next
  case (Cons x xs)
  show ?case
  proof (cases "groupByLocation_step g x")
    case (Inl e)
    then show ?thesis by (cases e) simp
  next
    case (Inr g1)
    then have "location x \<noteq> None"
      by (auto simp: groupByLocation_step_def Let_def split: option.splits if_splits)
    with Cons.prems have "\<exists>i \<in> set xs. location i = None" by auto
    then show ?thesis using Cons.IH Inr by simp
  qed
qed

lemma groupByLocation_throws:
  "\<exists>i \<in> set incidents. location i = None \<Longrightarrow> groupByLocation incidents = Inl TypeError"
  by (simp add: groupByLocation_def reduceE_groupByLocation_throws)

lemma foldl_groupByCrimeType:
  "groupedBy (\<lambda>i. Some (type i)) pre g \<Longrightarrow>
   groupedBy (\<lambda>i. Some (type i)) (pre @ xs) (foldl groupByCrimeType_step g xs)"
proof (induction xs arbitrary: g pre)
  case Nil
  then show ?case by simp
next
  case (Cons x xs)
  have "groupedBy (\<lambda>i. Some (type i)) (pre @ [x]) (groupByCrimeType_step g x)"
    unfolding groupByCrimeType_step_def by (rule groupedBy_step [OF Cons.prems]) simp
  from Cons.IH [OF this] show ?case by simp
qed

lemma groupByCrimeType_grouped:
  "groupedBy (\<lambda>i. Some (type i)) incidents (groupByCrimeType incidents)"
  using foldl_groupByCrimeType [of "[]" "[]" incidents]
  by (simp add: groupByCrimeType_def groupedBy_empty)

lemma groupedBy_entry:
  assumes "groupedBy key xs groups" and "(k, ms) \<in> set groups"
  shows "ms = filter (\<lambda>x. key x = Some k) xs" and "ms \<noteq> []"
proof -
  have d: "distinct (map fst groups)"
    and eq: "lookup groups k =
      (if filter (\<lambda>x. key x = Some k) xs = [] then None
       else Some (filter (\<lambda>x. key x = Some k) xs))"
    using assms(1) by (simp_all add: groupedBy_def)
  have "lookup groups k = Some ms"
    using d assms(2) by (simp add: lookup_Some_iff)
  with eq show "ms = filter (\<lambda>x. key x = Some k) xs" and "ms \<noteq> []"
    by (auto split: if_splits)
qed

lemma groupedBy_member:
  assumes "groupedBy key xs groups" and "x \<in> set xs" and "key x = Some k"
  shows "(k, filter (\<lambda>x. key x = Some k) xs) \<in> set groups"
proof -
  have "filter (\<lambda>x. key x = Some k) xs \<noteq> []"
    using assms(2,3) by (auto simp: filter_empty_conv)
  moreover have d: "distinct (map fst groups)"
    and eq: "lookup groups k =
      (if filter (\<lambda>x. key x = Some k) xs = [] then None
       else Some (filter (\<lambda>x. key x = Some k) xs))"
    using assms(1) by (simp_all add: groupedBy_def)
  ultimately have "lookup groups k = Some (filter (\<lambda>x. key x = Some k) xs)"
    by simp
  with d show ?thesis by (simp add: lookup_Some_iff)
qed

lemma countedBy_empty: "countedBy key [] []"
  by (simp add: countedBy_def lookup_def)

lemma countedBy_step:
  assumes "countedBy key pre c"
  shows "countedBy key (pre @ [x]) (count_step c (key x))"
  using assms
  by (auto simp: countedBy_def count_step_def lookup_assign distinct_keys_assign)

lemma foldl_countedBy:
  "countedBy key pre c \<Longrightarrow> countedBy key (pre @ xs) (foldl (\<lambda>counts x. count_step counts (key x)) c xs)"
proof (induction xs arbitrary: c pre)
  case Nil
  then show ?case by simp
next
  case (Cons x xs)
  from Cons.IH [OF countedBy_step [OF Cons.prems, of x]] show ?case by simp
qed

lemma countedBy_fold:
  "countedBy key xs (foldl (\<lambda>counts x. count_step counts (key x)) [] xs)"
  using foldl_countedBy [of key "[]" "[]" xs] by (simp add: countedBy_empty)

lemma countedBy_entry:
  assumes "countedBy key xs counts" and "(k, n) \<in> set counts"
  shows "n = length (filter (\<lambda>x. key x = k) xs)" and "n > 0"
proof -
  have d: "distinct (map fst counts)"
    and eq: "lookup counts k =
      (if length (filter (\<lambda>x. key x = k) xs) = 0 then None
       else Some (length (filter (\<lambda>x. key x = k) xs)))"
    using assms(1) by (simp_all add: countedBy_def)
  have "lookup counts k = Some n"
    using d assms(2) by (simp add: lookup_Some_iff)
  with eq show "n = length (filter (\<lambda>x. key x = k) xs)" and "n > 0"
    by (auto split: if_splits)
qed

section \<open>Incidents without a location\<close>

lemma detectCrimeHotspots_throws:
  "\<exists>i \<in> set incidents. location i = None \<Longrightarrow> detectCrimeHotspots incidents = Inl TypeError"
  by (simp add: detectCrimeHotspots_def groupByLocation_throws)

text \<open>
  Claim C6, as the code has it. An incident without a location is not left out of the
  grouping: for every input that contains one, \<open>groupByLocation\<close> throws a \<open>TypeError\<close>,
  and a run over at least 3 incidents ends with that error.
\<close>

theorem missing_location_throws:
  "\<exists>i \<in> set incidents. location i = None \<Longrightarrow>
     groupByLocation incidents = Inl TypeError
     \<and> (length incidents \<ge> 3 \<longrightarrow>
          runComprehensiveAnalysis now minConfidenceOpt incidents = Inl TypeError)"
  by (simp add: groupByLocation_throws runComprehensiveAnalysis_def runDetectors_def
      detectCrimeHotspots_throws)

theorem missing_location_throws_witness:
  "(\<exists>i \<in> set threeOneUnlocated. location i = None)
   \<and> length threeOneUnlocated \<ge> 3
   \<and> groupByLocation threeOneUnlocated = Inl TypeError
   \<and> runComprehensiveAnalysis 1700010000000 (Some (1 / 2)) threeOneUnlocated = Inl TypeError"
proof -
  have ex: "\<exists>i \<in> set threeOneUnlocated. location i = None"
    by (simp add: threeOneUnlocated_def mkIncident_def)
  have len: "length threeOneUnlocated \<ge> 3"
    by (simp add: threeOneUnlocated_def)
  show ?thesis
    using missing_location_throws [OF ex, of 1700010000000 "Some (1 / 2)"] ex len by simp
qed

text \<open>
  The claim as stated fails: with the second of three incidents lacking a location,
  grouping returns no groups for the other two but throws, and so does the run.
\<close>

theorem missing_location_not_excluded:
  "groupByLocation threeOneUnlocated = Inl TypeError
   \<and> runComprehensiveAnalysis 1700010000000 None threeOneUnlocated = Inl TypeError"
proof -
  have g: "groupByLocation threeOneUnlocated = Inl TypeError"
    by (simp add: groupByLocation_def groupByLocation_step_def threeOneUnlocated_def
        mkIncident_def Let_def lookup_def inheritedProperty_def toLowerCase_def lower_char_def
        trim_def is_space_def)
  have "detectCrimeHotspots threeOneUnlocated = Inl TypeError"
    by (simp add: detectCrimeHotspots_def g)
  then have "runComprehensiveAnalysis 1700010000000 None threeOneUnlocated = Inl TypeError"
    by (simp add: runComprehensiveAnalysis_def runDetectors_def threeOneUnlocated_def)
  with g show ?thesis by simp
qed

section \<open>Geographic clusters\<close>

lemma collectE_locationItemOf:
  "\<forall>i \<in> set incidents. location i \<noteq> None \<Longrightarrow>
   \<exists>locationData. collectE locationItemOf incidents = Inr locationData
     \<and> map item_id locationData = map ident incidents"
proof (induction incidents)
  case Nil
  then show ?case by simp
next
  case (Cons i incidents)
  then obtain l where "location i = Some l" by auto
  with Cons show ?case by (auto simp: locationItemOf_def)
qed

text \<open>
  Claim C10. \<open>clusterByDistance\<close> returns its whole input as one cluster, whatever the
  distance threshold and the places are. So for a filtered set of \<open>n\<close> incidents (each with
  a location) the geographic cluster detector emits nothing when \<open>n < 4\<close>, and when
  \<open>n \<ge> 4\<close> exactly one pattern, of type geographic-cluster, with confidence
  \<open>min(0.8, n/8)\<close> and with the identifiers of the whole filtered set as related incidents.
\<close>

theorem geographic_clustering_single_cluster:
  assumes "\<forall>i \<in> set incidents. location i \<noteq> None"
  shows "(\<forall>locationData maxDistance. clusterByDistance locationData maxDistance = [locationData])
    \<and> performGeographicClustering incidents =
        Inr (if length incidents \<ge> 4 then
               [\<lparr>ptype = ''geographic-cluster'', subtype = None,
                 confidence = min 0.8 (of_nat (length incidents) / 8),
                 plocation = ''Central Area'',
                 statistics = ClusterStats (length incidents) 500 (of_nat (length incidents) / 1000) [],
                 relatedIncidents = map ident incidents,
                 riskLevel = categorizeRiskLevel (min 0.8 (of_nat (length incidents) / 8))\<rparr>]
             else [])"
proof -
  obtain locationData where ld: "collectE locationItemOf incidents = Inr locationData"
    and ids: "map item_id locationData = map ident incidents"
    using collectE_locationItemOf [OF assms] by blast
  have len: "length locationData = length incidents"
    using ids by (metis length_map)
  have run: "performGeographicClustering incidents = Inr (patternOfCluster locationData)"
    by (simp add: performGeographicClustering_def ld clusterByDistance_def)
  show ?thesis
  proof (cases "4 \<le> length incidents")
    case True
    then have "(4::rat) \<le> of_nat (length incidents)" by simp
    then have "(0.4 :: rat) \<le> min 0.8 (of_nat (length incidents) / 8)" by simp
    with True show ?thesis
      by (simp add: run patternOfCluster_def calculateClusterConfidence_def len ids
          clusterByDistance_def Let_def)
  next
    case False
    then show ?thesis
      by (simp add: run patternOfCluster_def len clusterByDistance_def)
  qed
qed

theorem geographic_clustering_single_cluster_witness:
  "list_all (\<lambda>i. location i \<noteq> None) fourPlaces
   \<and> performGeographicClustering fourPlaces =
       Inr [\<lparr>ptype = ''geographic-cluster'', subtype = None, confidence = 1 / 2,
             plocation = ''Central Area'',
             statistics = ClusterStats 4 500 (1 / 250) [],
             relatedIncidents = [''c1'', ''c2'', ''c3'', ''c4''],
             riskLevel = ''medium''\<rparr>]"
proof -
  have loc: "\<forall>i \<in> set fourPlaces. location i \<noteq> None"
    by (simp add: fourPlaces_def mkIncident_def)
  have len: "length fourPlaces = 4" and ids: "map ident fourPlaces = [''c1'', ''c2'', ''c3'', ''c4'']"
    by (simp_all add: fourPlaces_def mkIncident_def)
  show ?thesis
    using geographic_clustering_single_cluster [OF loc] loc
    by (simp add: len ids categorizeRiskLevel_def list_all_iff)
qed

section \<open>Bounds of the scores\<close>

lemma severityMap_bounds: "1 \<le> severityMap s \<and> severityMap s \<le> 4"
  by (simp add: severityMap_def)

lemma foldl_severity_le:
  "foldl (\<lambda>total inc. total + severityMap (severity inc)) a incidents \<le> a + 4 * length incidents"
proof (induction incidents arbitrary: a)
  case Nil
  then show ?case by simp
next
  case (Cons i incidents)
  have "foldl (\<lambda>total inc. total + severityMap (severity inc)) (a + severityMap (severity i)) incidents
          \<le> a + severityMap (severity i) + 4 * length incidents"
    by (rule Cons.IH)
  also have "\<dots> \<le> a + 4 * length (i # incidents)"
    using severityMap_bounds [of "severity i"] by simp
  finally show ?case by simp
qed

lemma calculateAverageSeverity_bounds:
  "0 \<le> calculateAverageSeverity incidents \<and> calculateAverageSeverity incidents \<le> 4"
proof -
  let ?t = "foldl (\<lambda>total inc. total + severityMap (severity inc)) 0 incidents"
  have "?t \<le> 4 * length incidents"
    using foldl_severity_le [of 0 incidents] by simp
  then have "(of_nat ?t :: rat) \<le> of_nat (4 * length incidents)"
    by (simp only: of_nat_le_iff)
  then have le: "(of_nat ?t :: rat) \<le> 4 * of_nat (length incidents)"
    by simp
  show ?thesis
  proof (cases "length incidents = 0")
    case True
    then show ?thesis by (simp add: calculateAverageSeverity_def)
  next
    case False
    then have pos: "(0::rat) < of_nat (length incidents)" by simp
    have "(of_nat ?t :: rat) / of_nat (length incidents) \<le> 4"
      using le pos by (simp add: pos_divide_le_eq)
    then show ?thesis by (simp add: calculateAverageSeverity_def)
  qed
qed

lemma calculateCrimeDensity_nonneg: "0 \<le> calculateCrimeDensity incidents"
  by (simp add: calculateCrimeDensity_def Let_def)

lemma calculateHotspotConfidence_bounds:
  assumes "0 \<le> density" and "0 \<le> sev" and "sev \<le> 4"
  shows "0 \<le> calculateHotspotConfidence n density sev spread
       \<and> calculateHotspotConfidence n density sev spread \<le> 1"
proof -
  define c :: rat where "c = min 1 (of_nat n / 10)"
  define d :: rat where "d = min 1 (density / 2)"
  define s :: rat where "s = sev / 4"
  define t :: rat where "t = (if spread > 0 then min 1 (of_int spread / (30 * 24 * 60 * 60 * 1000)) else 0)"
  have c: "0 \<le> c \<and> c \<le> 1" by (simp add: c_def)
  have d: "0 \<le> d \<and> d \<le> 1" using assms(1) by (simp add: d_def)
  have s: "0 \<le> s \<and> s \<le> 1" using assms(2,3) by (simp add: s_def)
  have t: "0 \<le> t \<and> t \<le> 1" by (simp add: t_def)
  have eq: "calculateHotspotConfidence n density sev spread = c * 0.4 + d * 0.3 + s * 0.2 + t * 0.1"
    by (simp add: calculateHotspotConfidence_def Let_def c_def d_def s_def t_def)
  show ?thesis unfolding eq using c d s t by simp
qed

lemma getRecentActivityLevel_bounds:
  "0 \<le> getRecentActivityLevel now incidents \<and> getRecentActivityLevel now incidents \<le> 1"
  by (simp add: getRecentActivityLevel_def Let_def)

lemma calculateRiskScore_bounds:
  "0 \<le> calculateRiskScore now incidents \<and> calculateRiskScore now incidents \<le> 1"
proof -
  define s :: rat where "s = calculateAverageSeverity incidents / 4"
  define f :: rat where "f = min 1 (of_nat (length incidents) / 10)"
  define r :: rat where "r = getRecentActivityLevel now incidents"
  have s: "0 \<le> s \<and> s \<le> 1" using calculateAverageSeverity_bounds [of incidents] by (simp add: s_def)
  have f: "0 \<le> f \<and> f \<le> 1" by (simp add: f_def)
  have r: "0 \<le> r \<and> r \<le> 1" using getRecentActivityLevel_bounds [of now incidents] by (simp add: r_def)
  have eq: "calculateRiskScore now incidents = s * 0.4 + f * 0.4 + r * 0.2"
    by (simp add: calculateRiskScore_def Let_def s_def f_def r_def)
  show ?thesis unfolding eq using s f r by simp
qed

section \<open>What each detector emits\<close>

lemma set_insertBy: "set (insertBy cmp x ys) = insert x (set ys)"
  by (induction ys) auto

lemma set_sortBy: "set (sortBy cmp xs) = set xs"
  by (induction xs) (simp_all add: sortBy_def set_insertBy)

lemma mset_insertBy: "mset (insertBy cmp x ys) = add_mset x (mset ys)"
  by (induction ys) auto

lemma mset_sortBy: "mset (sortBy cmp xs) = mset xs"
  by (induction xs) (simp_all add: sortBy_def mset_insertBy)

lemma ident_filter_subset: "set (map ident (filter P incidents)) \<subseteq> ident ` set incidents"
  by auto

subsection \<open>Hotspots\<close>

lemma hotspotOfGroup_shape:
  assumes "hotspotOfGroup loc ms = Inr ps" and "p \<in> set ps"
  shows "length ms \<ge> 3
    \<and> calculateHotspotConfidence (length ms) (calculateCrimeDensity ms)
          (calculateAverageSeverity ms) (calculateTimeSpread ms) \<ge> 0.4
    \<and> (\<exists>dominant. classifyHotspotType ms = Inr dominant
        \<and> p = \<lparr>ptype = ''hotspot'', subtype = Some dominant,
                 confidence = calculateHotspotConfidence (length ms) (calculateCrimeDensity ms)
                                (calculateAverageSeverity ms) (calculateTimeSpread ms),
                 plocation = loc,
                 statistics = HotspotStats (length ms) (calculateCrimeDensity ms)
                                (calculateAverageSeverity ms) (calculateTimeSpread ms)
                                (getCrimeTypeDistribution ms),
                 relatedIncidents = map ident ms,
                 riskLevel = assessRiskLevel
                               (calculateHotspotConfidence (length ms) (calculateCrimeDensity ms)
                                  (calculateAverageSeverity ms) (calculateTimeSpread ms))
                               (calculateAverageSeverity ms) (length ms)\<rparr>)"
  using assms
  by (auto simp: hotspotOfGroup_def Let_def split: if_splits sum.splits)

lemma detectCrimeHotspots_shape:
  assumes "detectCrimeHotspots incidents = Inr ps" and "p \<in> set ps"
  shows "\<exists>loc ms. ms = filter (\<lambda>i. locationKey i = Some loc) incidents \<and> ms \<noteq> []
          \<and> (\<exists>qs. hotspotOfGroup loc ms = Inr qs \<and> p \<in> set qs)"
proof -
  from assms(1) obtain groups where g: "groupByLocation incidents = Inr groups"
    and c: "collectE (\<lambda>entry. hotspotOfGroup (fst entry) (snd entry)) (Object_entries groups) = Inr ps"
    by (auto simp: detectCrimeHotspots_def split: sum.splits)
  from collectE_mem [OF c assms(2)] obtain entry qs
    where e: "entry \<in> set groups" and q: "hotspotOfGroup (fst entry) (snd entry) = Inr qs" "p \<in> set qs"
    by (auto simp: set_Object_entries)
  have "(fst entry, snd entry) \<in> set groups" using e by simp
  from groupedBy_entry [OF groupByLocation_grouped [OF g] this] q
  show ?thesis by blast
qed

lemma detectCrimeHotspots_wellFormed:
  assumes "detectCrimeHotspots incidents = Inr ps" and "p \<in> set ps"
  shows "wellFormedPattern incidents p"
proof -
  from detectCrimeHotspots_shape [OF assms] obtain loc ms qs
    where ms: "ms = filter (\<lambda>i. locationKey i = Some loc) incidents" "ms \<noteq> []"
      and q: "hotspotOfGroup loc ms = Inr qs" "p \<in> set qs"
    by blast
  from hotspotOfGroup_shape [OF q]
  have conf: "confidence p = calculateHotspotConfidence (length ms) (calculateCrimeDensity ms)
                (calculateAverageSeverity ms) (calculateTimeSpread ms)"
    and rel: "relatedIncidents p = map ident ms"
    by auto
  have "0 \<le> confidence p \<and> confidence p \<le> 1"
    unfolding conf
    using calculateHotspotConfidence_bounds calculateCrimeDensity_nonneg
      calculateAverageSeverity_bounds by blast
  moreover have "relatedIncidents p \<noteq> []" using rel ms(2) by simp
  moreover have "set (relatedIncidents p) \<subseteq> ident ` set incidents"
    unfolding rel ms(1) by (rule ident_filter_subset)
  ultimately show ?thesis by (simp add: wellFormedPattern_def)
qed

subsection \<open>Crime series\<close>

lemma detectCrimeSeries_shape:
  assumes "p \<in> set (detectCrimeSeries incidents)"
  shows "\<exists>crimeType ms. ms = filter (\<lambda>i. type i = crimeType) incidents \<and> length ms \<ge> 3
          \<and> min 0.9 (of_nat (length ms) / 5 * 0.8) \<ge> (0.5 :: rat)
          \<and> p = \<lparr>ptype = ''crime-series'', subtype = Some crimeType,
                   confidence = min 0.9 (of_nat (length ms) / 5 * 0.8),
                   plocation = ''Multiple locations'',
                   statistics = SeriesStats (length ms) (calculateTimeSpan ms) 1 ''stable'',
                   relatedIncidents = map ident ms,
                   riskLevel = categorizeRiskLevel (min 0.9 (of_nat (length ms) / 5 * 0.8))\<rparr>"
proof -
  from assms obtain entry where e: "entry \<in> set (groupByCrimeType incidents)"
    and p: "p \<in> set (seriesOfType entry)"
    by (auto simp: detectCrimeSeries_def set_Object_entries)
  have "(fst entry, snd entry) \<in> set (groupByCrimeType incidents)" using e by simp
  from groupedBy_entry(1) [OF groupByCrimeType_grouped this]
  have ms: "snd entry = filter (\<lambda>i. type i = fst entry) incidents" by simp
  from p have "length (snd entry) \<ge> 3
      \<and> min 0.9 (of_nat (length (snd entry)) / 5 * 0.8) \<ge> (0.5 :: rat)
      \<and> p = \<lparr>ptype = ''crime-series'', subtype = Some (fst entry),
               confidence = min 0.9 (of_nat (length (snd entry)) / 5 * 0.8),
               plocation = ''Multiple locations'',
               statistics = SeriesStats (length (snd entry)) (calculateTimeSpan (snd entry)) 1 ''stable'',
               relatedIncidents = map ident (snd entry),
               riskLevel = categorizeRiskLevel (min 0.9 (of_nat (length (snd entry)) / 5 * 0.8))\<rparr>"
    by (auto simp: seriesOfType_def findCrimeClusters_def seriesOfCluster_def
        calculateSeriesConfidence_def Let_def split: if_splits)
  with ms show ?thesis by blast
qed

lemma detectCrimeSeries_wellFormed:
  assumes "p \<in> set (detectCrimeSeries incidents)"
  shows "wellFormedPattern incidents p"
proof -
  from detectCrimeSeries_shape [OF assms] obtain crimeType ms
    where ms: "ms = filter (\<lambda>i. type i = crimeType) incidents" "length ms \<ge> 3"
      and p: "p = \<lparr>ptype = ''crime-series'', subtype = Some crimeType,
                   confidence = min 0.9 (of_nat (length ms) / 5 * 0.8),
                   plocation = ''Multiple locations'',
                   statistics = SeriesStats (length ms) (calculateTimeSpan ms) 1 ''stable'',
                   relatedIncidents = map ident ms,
                   riskLevel = categorizeRiskLevel (min 0.9 (of_nat (length ms) / 5 * 0.8))\<rparr>"
    by blast
  have conf: "confidence p = min 0.9 (of_nat (length ms) / 5 * 0.8)"
    and rel: "relatedIncidents p = map ident ms"
    by (simp_all add: p)
  have "0 \<le> confidence p \<and> confidence p \<le> 1" unfolding conf by simp
  moreover have "relatedIncidents p \<noteq> []" using rel ms(2) by auto
  moreover have "set (relatedIncidents p) \<subseteq> ident ` set incidents"
    unfolding rel ms(1) by (rule ident_filter_subset)
  ultimately show ?thesis by (simp add: wellFormedPattern_def)
qed

subsection \<open>Geographic clusters\<close>

lemma collectE_locationItemOf_ids:
  "collectE locationItemOf incidents = Inr locationData \<Longrightarrow>
   map item_id locationData = map ident incidents"
proof (induction incidents arbitrary: locationData)
  case Nil
  then show ?case by simp
next
  case (Cons i incidents)
  then show ?case
    by (auto simp: locationItemOf_def split: option.splits sum.splits)
qed

lemma performGeographicClustering_shape:
  assumes "performGeographicClustering incidents = Inr ps" and "p \<in> set ps"
  shows "length incidents \<ge> 4
    \<and> p = \<lparr>ptype = ''geographic-cluster'', subtype = None,
             confidence = min 0.8 (of_nat (length incidents) / 8),
             plocation = ''Central Area'',
             statistics = ClusterStats (length incidents) 500 (of_nat (length incidents) / 1000) [],
             relatedIncidents = map ident incidents,
             riskLevel = categorizeRiskLevel (min 0.8 (of_nat (length incidents) / 8))\<rparr>"
proof -
  from assms(1) obtain locationData where ld: "collectE locationItemOf incidents = Inr locationData"
    and ps: "ps = patternOfCluster locationData"
    by (auto simp: performGeographicClustering_def clusterByDistance_def split: sum.splits)
  have ids: "map item_id locationData = map ident incidents"
    by (rule collectE_locationItemOf_ids [OF ld])
  then have len: "length locationData = length incidents" by (metis length_map)
  from assms(2) show ?thesis
    unfolding ps
    by (auto simp: patternOfCluster_def calculateClusterConfidence_def Let_def ids len
        split: if_splits)
qed

lemma performGeographicClustering_wellFormed:
  assumes "performGeographicClustering incidents = Inr ps" and "p \<in> set ps"
  shows "wellFormedPattern incidents p"
proof -
  from performGeographicClustering_shape [OF assms]
  have len: "length incidents \<ge> 4"
    and conf: "confidence p = min 0.8 (of_nat (length incidents) / 8)"
    and rel: "relatedIncidents p = map ident incidents"
    by auto
  have "0 \<le> confidence p \<and> confidence p \<le> 1" unfolding conf by simp
  moreover have "relatedIncidents p \<noteq> []" using rel len by auto
  ultimately show ?thesis by (simp add: wellFormedPattern_def rel)
qed

subsection \<open>Temporal patterns\<close>

lemma numeric_counts_entry:
  assumes "(k, n) \<in> set (foldl (\<lambda>counts inc. count_step counts (toString (int (num inc)))) [] incidents)"
  shows "\<exists>h. k = toString (int h) \<and> parseInt k = Some h
           \<and> n = length (filter (\<lambda>i. num i = h) incidents) \<and> n > 0"
proof -
  let ?key = "\<lambda>inc. toString (int (num inc))"
  from countedBy_entry [OF countedBy_fold assms]
  have n: "n = length (filter (\<lambda>x. ?key x = k) incidents)" and pos: "n > 0"
    by simp_all
  from n pos obtain i where "i \<in> set incidents" and "?key i = k"
    by (metis (mono_tags, lifting) filter_False length_0_conv less_numeral_extra(3))
  then have k: "k = toString (int (num i))" by simp
  have "filter (\<lambda>x. ?key x = k) incidents = filter (\<lambda>x. num x = num i) incidents"
    unfolding k by (simp add: toString_inj)
  with n pos k show ?thesis
    by (metis parseInt_toString)
qed

lemma numeric_counts_member:
  assumes "i \<in> set incidents"
  shows "(toString (int (num i)), length (filter (\<lambda>x. num x = num i) incidents))
           \<in> set (foldl (\<lambda>counts inc. count_step counts (toString (int (num inc)))) [] incidents)"
proof -
  let ?key = "\<lambda>inc. toString (int (num inc))"
  let ?c = "foldl (\<lambda>counts inc. count_step counts (?key inc)) [] incidents"
  have c: "countedBy ?key incidents ?c" by (rule countedBy_fold)
  have eq: "filter (\<lambda>x. ?key x = ?key i) incidents = filter (\<lambda>x. num x = num i) incidents"
    by (simp add: toString_inj)
  have "filter (\<lambda>x. num x = num i) incidents \<noteq> []"
    using assms by (auto simp: filter_empty_conv)
  then have "lookup ?c (?key i) = Some (length (filter (\<lambda>x. num x = num i) incidents))"
    using c eq unfolding countedBy_def by simp
  moreover have "distinct (map fst ?c)" using c by (simp add: countedBy_def)
  ultimately show ?thesis by (simp add: lookup_Some_iff)
qed

lemma hourlyPattern_shape:
  assumes "(k, n) \<in> set (hourCounts incidents)" and "p \<in> set (hourlyPattern incidents (k, n))"
  shows "\<exists>h. n = length (filter (\<lambda>i. getHours (dateTime i) = h) incidents) \<and> n \<ge> 3
          \<and> k = toString (int h)
          \<and> ptype p = ''temporal-pattern'' \<and> subtype p = Some ''hourly''
          \<and> confidence p = min 0.9 (of_nat n / of_nat (length incidents) * 4)
          \<and> statistics p = HourlyStats (Some h) n
                                (toFixed1 (of_nat n / of_nat (length incidents) * 100))
          \<and> relatedIncidents p = map ident (filter (\<lambda>i. getHours (dateTime i) = h) incidents)
          \<and> riskLevel p = (if confidence p > 0.7 then ''high''
                             else if confidence p > 0.5 then ''medium'' else ''low'')"
proof -
  from numeric_counts_entry [OF assms(1) [unfolded hourCounts_def]]
  obtain h where h: "k = toString (int h)" "parseInt k = Some h"
    "n = length (filter (\<lambda>i. getHours (dateTime i) = h) incidents)"
    by blast
  from assms(2) have n3: "n \<ge> 3" by (auto simp: hourlyPattern_def split: if_splits)
  with assms(2) have p: "p = \<lparr>ptype = ''temporal-pattern'', subtype = Some ''hourly'',
           confidence = min 0.9 (of_nat n / of_nat (length incidents) * 4),
           plocation = ''Multiple locations'',
           statistics = HourlyStats (Some h) n
                          (toFixed1 (of_nat n / of_nat (length incidents) * 100)),
           relatedIncidents = map ident (filter (\<lambda>i. Some (getHours (dateTime i)) = Some h) incidents),
           riskLevel = (if min 0.9 (of_nat n / of_nat (length incidents) * 4) > (0.7 :: rat) then ''high''
                        else if min 0.9 (of_nat n / of_nat (length incidents) * 4) > (0.5 :: rat)
                        then ''medium'' else ''low'')\<rparr>"
    unfolding hourlyPattern_def Let_def fst_conv snd_conv h(2) by simp
  show ?thesis
    apply (rule exI [of _ h])
    apply (simp only: p pattern.simps)
    using h(1,3) n3 apply simp
    done
qed

lemma detectHourlyPatterns_entry:
  assumes "p \<in> set (detectHourlyPatterns incidents)"
  shows "\<exists>k n. (k, n) \<in> set (take 3 (sortBy byCountDesc (Object_entries (hourCounts incidents))))
          \<and> (k, n) \<in> set (hourCounts incidents) \<and> p \<in> set (hourlyPattern incidents (k, n))"
proof -
  from assms obtain e where e: "e \<in> set (take 3 (sortBy byCountDesc (Object_entries (hourCounts incidents))))"
    and p: "p \<in> set (hourlyPattern incidents e)"
    by (auto simp: detectHourlyPatterns_def)
  from e have he: "e \<in> set (hourCounts incidents)"
    using set_take_subset [of 3 "sortBy byCountDesc (Object_entries (hourCounts incidents))"]
    by (auto simp: set_sortBy set_Object_entries)
  obtain k n where "e = (k, n)" by (cases e)
  with he e p show ?thesis by blast
qed

lemma detectHourlyPatterns_wellFormed:
  assumes "p \<in> set (detectHourlyPatterns incidents)"
  shows "wellFormedPattern incidents p"
proof -
  from detectHourlyPatterns_entry [OF assms] obtain k n
    where "(k, n) \<in> set (hourCounts incidents)" "p \<in> set (hourlyPattern incidents (k, n))"
    by blast
  from hourlyPattern_shape [OF this] obtain h
    where n: "n = length (filter (\<lambda>i. getHours (dateTime i) = h) incidents)" "n \<ge> 3"
      and conf: "confidence p = min 0.9 (of_nat n / of_nat (length incidents) * 4)"
      and rel: "relatedIncidents p = map ident (filter (\<lambda>i. getHours (dateTime i) = h) incidents)"
    by auto
  have "0 \<le> confidence p \<and> confidence p \<le> 1" unfolding conf by simp
  moreover have "relatedIncidents p \<noteq> []" using rel n by auto
  moreover have "set (relatedIncidents p) \<subseteq> ident ` set incidents"
    unfolding rel by (rule ident_filter_subset)
  ultimately show ?thesis by (simp add: wellFormedPattern_def)
qed

lemma dailyPattern_shape:
  assumes "(k, n) \<in> set (dayCounts incidents)" and "p \<in> set (dailyPattern incidents (k, n))"
  shows "\<exists>d. n = length (filter (\<lambda>i. getDay (dateTime i) = d) incidents) \<and> n \<ge> 3
          \<and> ptype p = ''temporal-pattern'' \<and> subtype p = Some ''daily''
          \<and> confidence p = min 0.85 (of_nat n / of_nat (length incidents) * 3)
          \<and> relatedIncidents p = map ident (filter (\<lambda>i. getDay (dateTime i) = d) incidents)
          \<and> riskLevel p = (if confidence p > 0.7 then ''high''
                             else if confidence p > 0.5 then ''medium'' else ''low'')"
proof -
  from numeric_counts_entry [OF assms(1) [unfolded dayCounts_def]]
  obtain d where d: "k = toString (int d)" "parseInt k = Some d"
    "n = length (filter (\<lambda>i. getDay (dateTime i) = d) incidents)"
    by blast
  from assms(2) have n3: "n \<ge> 3" by (auto simp: dailyPattern_def split: if_splits)
  with assms(2) have p: "p = \<lparr>ptype = ''temporal-pattern'', subtype = Some ''daily'',
           confidence = min 0.85 (of_nat n / of_nat (length incidents) * 3),
           plocation = ''Multiple locations'',
           statistics = DailyStats (nameAt dayNames k) n
                          (toFixed1 (of_nat n / of_nat (length incidents) * 100)),
           relatedIncidents = map ident (filter (\<lambda>i. Some (getDay (dateTime i)) = Some d) incidents),
           riskLevel = (if min 0.85 (of_nat n / of_nat (length incidents) * 3) > (0.7 :: rat) then ''high''
                        else if min 0.85 (of_nat n / of_nat (length incidents) * 3) > (0.5 :: rat)
                        then ''medium'' else ''low'')\<rparr>"
    unfolding dailyPattern_def Let_def fst_conv snd_conv d(2) by simp
  show ?thesis
    apply (rule exI [of _ d])
    apply (simp only: p pattern.simps)
    using d(3) n3 apply simp
    done
qed

lemma detectDailyPatterns_entry:
  assumes "p \<in> set (detectDailyPatterns incidents)"
  shows "\<exists>k n. (k, n) \<in> set (dayCounts incidents) \<and> p \<in> set (dailyPattern incidents (k, n))"
proof -
  from assms obtain e where e: "e \<in> set (take 2 (sortBy byCountDesc (Object_entries (dayCounts incidents))))"
    and p: "p \<in> set (dailyPattern incidents e)"
    by (auto simp: detectDailyPatterns_def)
  from e have he: "e \<in> set (dayCounts incidents)"
    using set_take_subset [of 2 "sortBy byCountDesc (Object_entries (dayCounts incidents))"]
    by (auto simp: set_sortBy set_Object_entries)
  obtain k n where "e = (k, n)" by (cases e)
  with he p show ?thesis by blast
qed

lemma detectDailyPatterns_wellFormed:
  assumes "p \<in> set (detectDailyPatterns incidents)"
  shows "wellFormedPattern incidents p"
proof -
  from detectDailyPatterns_entry [OF assms] obtain k n
    where "(k, n) \<in> set (dayCounts incidents)" "p \<in> set (dailyPattern incidents (k, n))"
    by blast
  from dailyPattern_shape [OF this] obtain d
    where n: "n = length (filter (\<lambda>i. getDay (dateTime i) = d) incidents)" "n \<ge> 3"
      and conf: "confidence p = min 0.85 (of_nat n / of_nat (length incidents) * 3)"
      and rel: "relatedIncidents p = map ident (filter (\<lambda>i. getDay (dateTime i) = d) incidents)"
    by auto
  have "0 \<le> confidence p \<and> confidence p \<le> 1" unfolding conf by simp
  moreover have "relatedIncidents p \<noteq> []" using rel n by auto
  moreover have "set (relatedIncidents p) \<subseteq> ident ` set incidents"
    unfolding rel by (rule ident_filter_subset)
  ultimately show ?thesis by (simp add: wellFormedPattern_def)
qed

lemma foldl_choice_mem:
  "(\<And>a b. f a b = a \<or> f a b = b) \<Longrightarrow> foldl f x xs \<in> set (x # xs)"
proof (induction xs arbitrary: x)
  case Nil
  then show ?case by simp
next
  case (Cons y ys)
  have "foldl f (f x y) ys \<in> set (f x y # ys)" by (rule Cons.IH) (rule Cons.prems)
  moreover have "f x y = x \<or> f x y = y" by (rule Cons.prems)
  ultimately show ?case by auto
qed

lemma reduce1_choice_mem:
  "reduce1 (\<lambda>a b. if P a b then a else b) xs = Inr y \<Longrightarrow> y \<in> set xs"
proof (cases xs)
  case Nil
  assume "reduce1 (\<lambda>a b. if P a b then a else b) xs = Inr y"
  with Nil show ?thesis by (simp add: reduce1_def)
next
  case (Cons x rest)
  assume "reduce1 (\<lambda>a b. if P a b then a else b) xs = Inr y"
  with Cons have "y = foldl (\<lambda>a b. if P a b then a else b) x rest" by (simp add: reduce1_def)
  moreover have "foldl (\<lambda>a b. if P a b then a else b) x rest \<in> set (x # rest)"
    by (rule foldl_choice_mem) simp
  ultimately show ?thesis using Cons by simp
qed

lemma reduce1_total: "xs \<noteq> [] \<Longrightarrow> \<exists>y. reduce1 f xs = Inr y"
  by (cases xs) (simp_all add: reduce1_def)

lemma seasonalPattern_shape:
  assumes "(k, n) \<in> set (monthCounts incidents)" and "p \<in> set (seasonalPattern incidents (k, n))"
  shows "\<exists>m. n = length (filter (\<lambda>i. getMonth (dateTime i) = m) incidents) \<and> n \<ge> 4
          \<and> ptype p = ''temporal-pattern'' \<and> subtype p = Some ''seasonal''
          \<and> confidence p = min 0.8 (of_nat n / of_nat (length incidents) * 2)
          \<and> relatedIncidents p = map ident (filter (\<lambda>i. getMonth (dateTime i) = m) incidents)
          \<and> riskLevel p = (if confidence p > 0.6 then ''medium'' else ''low'')"
proof -
  from numeric_counts_entry [OF assms(1) [unfolded monthCounts_def]]
  obtain m where m: "k = toString (int m)" "parseInt k = Some m"
    "n = length (filter (\<lambda>i. getMonth (dateTime i) = m) incidents)"
    by blast
  from assms(2) have n4: "n \<ge> 4" by (auto simp: seasonalPattern_def split: if_splits)
  with assms(2) have p: "p = \<lparr>ptype = ''temporal-pattern'', subtype = Some ''seasonal'',
           confidence = min 0.8 (of_nat n / of_nat (length incidents) * 2),
           plocation = ''Multiple locations'',
           statistics = SeasonalStats (nameAt monthNames k) n
                          (toFixed1 (of_nat n / of_nat (length incidents) * 100)),
           relatedIncidents = map ident (filter (\<lambda>i. Some (getMonth (dateTime i)) = Some m) incidents),
           riskLevel = (if min 0.8 (of_nat n / of_nat (length incidents) * 2) > (0.6 :: rat)
                        then ''medium'' else ''low'')\<rparr>"
    unfolding seasonalPattern_def Let_def fst_conv snd_conv m(2) by simp
  show ?thesis
    apply (rule exI [of _ m])
    apply (simp only: p pattern.simps)
    using m(3) n4 apply simp
    done
qed

lemma detectSeasonalPatterns_entry:
  assumes "detectSeasonalPatterns incidents = Inr ps" and "p \<in> set ps"
  shows "\<exists>k n. (k, n) \<in> set (monthCounts incidents) \<and> p \<in> set (seasonalPattern incidents (k, n))"
proof -
  from assms(1) obtain e
    where r: "reduce1 (\<lambda>a b. if count_greater (monthCounts incidents) a b then a else b)
                (Object_entries (monthCounts incidents)) = Inr e"
      and ps: "ps = seasonalPattern incidents e"
    by (auto simp: detectSeasonalPatterns_def Let_def split: sum.splits)
  from reduce1_choice_mem [OF r] have he: "e \<in> set (monthCounts incidents)"
    by (simp add: set_Object_entries)
  obtain k n where "e = (k, n)" by (cases e)
  with he ps assms(2) show ?thesis by blast
qed

lemma detectSeasonalPatterns_wellFormed:
  assumes "detectSeasonalPatterns incidents = Inr ps" and "p \<in> set ps"
  shows "wellFormedPattern incidents p"
proof -
  from detectSeasonalPatterns_entry [OF assms] obtain k n
    where "(k, n) \<in> set (monthCounts incidents)" "p \<in> set (seasonalPattern incidents (k, n))"
    by blast
  from seasonalPattern_shape [OF this] obtain m
    where n: "n = length (filter (\<lambda>i. getMonth (dateTime i) = m) incidents)" "n \<ge> 4"
      and conf: "confidence p = min 0.8 (of_nat n / of_nat (length incidents) * 2)"
      and rel: "relatedIncidents p = map ident (filter (\<lambda>i. getMonth (dateTime i) = m) incidents)"
    by auto
  have "0 \<le> confidence p \<and> confidence p \<le> 1" unfolding conf by simp
  moreover have "relatedIncidents p \<noteq> []" using rel n by auto
  moreover have "set (relatedIncidents p) \<subseteq> ident ` set incidents"
    unfolding rel by (rule ident_filter_subset)
  ultimately show ?thesis by (simp add: wellFormedPattern_def)
qed

lemma detectSeasonalPatterns_total:
  assumes "incidents \<noteq> []"
  shows "\<exists>ps. detectSeasonalPatterns incidents = Inr ps"
proof -
  from assms obtain i where "i \<in> set incidents" by (cases incidents) auto
  from numeric_counts_member [OF this, of "\<lambda>i. getMonth (dateTime i)"]
  have "set (monthCounts incidents) \<noteq> {}" by (auto simp: monthCounts_def)
  then have "Object_entries (monthCounts incidents) \<noteq> []"
    by (metis set_Object_entries set_empty)
  from reduce1_total [OF this] show ?thesis
    by (metis (no_types, lifting) detectSeasonalPatterns_def old.sum.simps(6))
qed

lemma analyzeTemporalPatterns_wellFormed:
  assumes "analyzeTemporalPatterns incidents = Inr ps" and "p \<in> set ps"
  shows "wellFormedPattern incidents p"
proof -
  from assms(1) obtain ss where ss: "detectSeasonalPatterns incidents = Inr ss"
    and ps: "ps = detectHourlyPatterns incidents @ detectDailyPatterns incidents @ ss"
    by (auto simp: analyzeTemporalPatterns_def Let_def split: sum.splits)
  from assms(2) ps show ?thesis
    using detectHourlyPatterns_wellFormed detectDailyPatterns_wellFormed
      detectSeasonalPatterns_wellFormed [OF ss]
    by auto
qed

subsection \<open>Predictive hotspots\<close>

lemma assign_fresh: "k \<notin> fst ` set obj \<Longrightarrow> assign obj k v = obj @ [(k, v)]"
  by (induction obj) auto

lemma foldl_trendOfGroup:
  "distinct (map fst es) \<Longrightarrow> fst ` set acc \<inter> fst ` set es = {} \<Longrightarrow>
   foldl trendOfGroup acc es =
     acc @ map (\<lambda>e. (fst e, \<lparr>currentCount = length (snd e), isIncreasing = True,
                               trendConfidence = min 0.8 (of_nat (length (snd e)) / 5),
                               growthRate = 0.1, trendIncidents = snd e\<rparr>))
             (filter (\<lambda>e. length (snd e) \<ge> 2) es)"
proof (induction es arbitrary: acc)
  case Nil
  then show ?case by simp
next
  case (Cons e es)
  have fresh: "fst e \<notin> fst ` set acc" using Cons.prems(2) by auto
  have d: "distinct (map fst es)" using Cons.prems(1) by simp
  have ne: "fst e \<notin> fst ` set es" using Cons.prems(1) by simp
  show ?case
  proof (cases "length (snd e) \<ge> 2")
    case True
    let ?t = "\<lparr>currentCount = length (snd e), isIncreasing = True,
                trendConfidence = min 0.8 (of_nat (length (snd e)) / 5),
                growthRate = 0.1, trendIncidents = snd e\<rparr>"
    have step: "trendOfGroup acc e = acc @ [(fst e, ?t)]"
      using True fresh by (simp add: trendOfGroup_def Let_def assign_fresh)
    have "fst ` set (acc @ [(fst e, ?t)]) \<inter> fst ` set es = {}"
      using Cons.prems(2) ne by auto
    from Cons.IH [OF d this] show ?thesis using True step by simp
  next
    case False
    then have step: "trendOfGroup acc e = acc" by (simp add: trendOfGroup_def Let_def)
    have "fst ` set acc \<inter> fst ` set es = {}" using Cons.prems(2) by auto
    from Cons.IH [OF d this] show ?thesis using False step by simp
  qed
qed

lemma analyzeTrends_entries:
  assumes "analyzeTrends incidents = Inr trends"
  shows "(loc, t) \<in> set (Object_entries trends) \<longleftrightarrow>
           length (filter (\<lambda>i. locationKey i = Some loc) incidents) \<ge> 2
           \<and> t = \<lparr>currentCount = length (filter (\<lambda>i. locationKey i = Some loc) incidents),
                   isIncreasing = True,
                   trendConfidence =
                     min 0.8 (of_nat (length (filter (\<lambda>i. locationKey i = Some loc) incidents)) / 5),
                   growthRate = 0.1,
                   trendIncidents = filter (\<lambda>i. locationKey i = Some loc) incidents\<rparr>"
    (is "?lhs \<longleftrightarrow> ?rhs")
proof -
  from assms obtain groups where g: "groupByLocation incidents = Inr groups"
    and t: "trends = foldl trendOfGroup [] (Object_entries groups)"
    by (auto simp: analyzeTrends_def split: sum.splits)
  have gb: "groupedBy locationKey incidents groups" by (rule groupByLocation_grouped [OF g])
  then have "distinct (map fst groups)" by (simp add: groupedBy_def)
  then have d: "distinct (map fst (Object_entries groups))"
    by (simp add: distinct_Object_entries)
  let ?mk = "\<lambda>e :: string \<times> incident list.
      (fst e, \<lparr>currentCount = length (snd e), isIncreasing = True,
               trendConfidence = min 0.8 (of_nat (length (snd e)) / 5),
               growthRate = 0.1, trendIncidents = snd e\<rparr>)"
  have tr: "trends = map ?mk (filter (\<lambda>e. length (snd e) \<ge> 2) (Object_entries groups))"
    unfolding t using foldl_trendOfGroup [OF d, of "[]"] by simp
  have mem: "(loc, t) \<in> set trends \<longleftrightarrow> (\<exists>ms. (loc, ms) \<in> set groups \<and> length ms \<ge> 2 \<and> (loc, t) = ?mk (loc, ms))"
    unfolding tr by (force simp: set_Object_entries)
  show ?thesis
  proof
    assume ?lhs
    then have "(loc, t) \<in> set trends" by (simp add: set_Object_entries)
    with mem obtain ms where ms: "(loc, ms) \<in> set groups" "length ms \<ge> 2" "(loc, t) = ?mk (loc, ms)"
      by blast
    from groupedBy_entry(1) [OF gb ms(1)] ms(2,3) show ?rhs by simp
  next
    assume r: ?rhs
    let ?ms = "filter (\<lambda>i. locationKey i = Some loc) incidents"
    from r have "?ms \<noteq> []" by auto
    then obtain i where "i \<in> set incidents" "locationKey i = Some loc"
      by (auto simp: filter_empty_conv)
    from groupedBy_member [OF gb this] have "(loc, ?ms) \<in> set groups" .
    with r have "(loc, t) \<in> set trends" unfolding mem by (intro exI [of _ ?ms]) simp
    then show ?lhs by (simp add: set_Object_entries)
  qed
qed


lemma analyzeTrends_ungroupable:
  "\<exists>i \<in> set incidents. \<not> groupable i \<Longrightarrow> analyzeTrends incidents = Inl TypeError"
  by (simp add: analyzeTrends_def groupByLocation_ungroupable)

lemma predictFutureHotspots_shape:
  assumes "predictFutureHotspots now incidents = Inr ps" and "p \<in> set ps"
  shows "\<exists>loc ms. ms = filter (\<lambda>i. locationKey i = Some loc)
                       (filter (\<lambda>inc. of_int (now - getTime (dateTime inc)) / msPerDay \<le> 14) incidents)
          \<and> length ms \<ge> 2 \<and> min 0.8 (of_nat (length ms) / 5) \<ge> (0.6 :: rat)
          \<and> p = \<lparr>ptype = ''predictive-hotspot'', subtype = None,
                   confidence = min 0.8 (of_nat (length ms) / 5) * 0.8,
                   plocation = loc,
                   statistics = PredictiveStats (length ms) ''increasing'' 0.1 ''7-14 days'',
                   relatedIncidents = map ident ms,
                   riskLevel = categorizeRiskLevel (min 0.8 (of_nat (length ms) / 5))\<rparr>"
proof -
  let ?recent = "filter (\<lambda>inc. of_int (now - getTime (dateTime inc)) / msPerDay \<le> 14) incidents"
  from assms(1) obtain trends where tr: "analyzeTrends ?recent = Inr trends"
    and ps: "ps = concat (map predictionOfTrend (Object_entries trends))"
    by (auto simp: predictFutureHotspots_def Let_def split: sum.splits)
  from assms(2) ps obtain e where e: "e \<in> set (Object_entries trends)" and pe: "p \<in> set (predictionOfTrend e)"
    by auto
  obtain loc t where lt: "e = (loc, t)" by (cases e)
  let ?ms = "filter (\<lambda>i. locationKey i = Some loc) ?recent"
  from e lt analyzeTrends_entries [OF tr, of loc t]
  have len: "length ?ms \<ge> 2"
    and t: "t = \<lparr>currentCount = length ?ms, isIncreasing = True,
                 trendConfidence = min 0.8 (of_nat (length ?ms) / 5),
                 growthRate = 0.1, trendIncidents = ?ms\<rparr>"
    by simp_all
  from pe have "min 0.8 (of_nat (length ?ms) / 5) \<ge> (0.6 :: rat)
      \<and> p = \<lparr>ptype = ''predictive-hotspot'', subtype = None,
               confidence = min 0.8 (of_nat (length ?ms) / 5) * 0.8,
               plocation = loc,
               statistics = PredictiveStats (length ?ms) ''increasing'' 0.1 ''7-14 days'',
               relatedIncidents = map ident ?ms,
               riskLevel = categorizeRiskLevel (min 0.8 (of_nat (length ?ms) / 5))\<rparr>"
    unfolding lt predictionOfTrend_def Let_def fst_conv snd_conv t
    by (simp split: if_splits)
  with len show ?thesis by blast
qed

lemma predictFutureHotspots_wellFormed:
  assumes "predictFutureHotspots now incidents = Inr ps" and "p \<in> set ps"
  shows "wellFormedPattern incidents p"
proof -
  from predictFutureHotspots_shape [OF assms] obtain loc ms
    where ms: "ms = filter (\<lambda>i. locationKey i = Some loc)
                     (filter (\<lambda>inc. of_int (now - getTime (dateTime inc)) / msPerDay \<le> 14) incidents)"
      "length ms \<ge> 2"
      and p: "p = \<lparr>ptype = ''predictive-hotspot'', subtype = None,
                   confidence = min 0.8 (of_nat (length ms) / 5) * 0.8,
                   plocation = loc,
                   statistics = PredictiveStats (length ms) ''increasing'' 0.1 ''7-14 days'',
                   relatedIncidents = map ident ms,
                   riskLevel = categorizeRiskLevel (min 0.8 (of_nat (length ms) / 5))\<rparr>"
    by blast
  have conf: "confidence p = min 0.8 (of_nat (length ms) / 5) * 0.8"
    and rel: "relatedIncidents p = map ident ms"
    by (simp_all add: p)
  have "0 \<le> confidence p \<and> confidence p \<le> 1" unfolding conf by (simp add: min_def)
  moreover have "relatedIncidents p \<noteq> []" using rel ms(2) by auto
  moreover have "set (relatedIncidents p) \<subseteq> ident ` set incidents"
    unfolding rel ms(1) by auto
  ultimately show ?thesis by (simp add: wellFormedPattern_def)
qed

subsection \<open>Area risk\<close>

lemma assessAreaRisk_shape:
  assumes "assessAreaRisk now incidents = Inr ps" and "p \<in> set ps"
  shows "\<exists>loc ms. ms = filter (\<lambda>i. locationKey i = Some loc) incidents \<and> ms \<noteq> []
          \<and> calculateRiskScore now ms \<ge> 0.5
          \<and> p = \<lparr>ptype = ''risk-assessment'', subtype = None,
                   confidence = min 0.9 (calculateRiskScore now ms + 0.1),
                   plocation = loc,
                   statistics = RiskStats (calculateRiskScore now ms)
                                  (categorizeRiskLevel (calculateRiskScore now ms)) (length ms)
                                  (getSeverityDistribution ms) (getRecentActivityLevel now ms),
                   relatedIncidents = map ident ms,
                   riskLevel = categorizeRiskLevel (calculateRiskScore now ms)\<rparr>"
proof -
  from assms(1) obtain groups where g: "groupByLocation incidents = Inr groups"
    and ps: "ps = concat (map (riskOfGroup now) (Object_entries groups))"
    by (auto simp: assessAreaRisk_def split: sum.splits)
  from assms(2) ps obtain e where e: "e \<in> set groups" and pe: "p \<in> set (riskOfGroup now e)"
    by (auto simp: set_Object_entries)
  obtain loc ms where lm: "e = (loc, ms)" by (cases e)
  from groupedBy_entry [OF groupByLocation_grouped [OF g] e [unfolded lm]]
  have ms: "ms = filter (\<lambda>i. locationKey i = Some loc) incidents" "ms \<noteq> []" .
  from pe have "calculateRiskScore now ms \<ge> 0.5
      \<and> p = \<lparr>ptype = ''risk-assessment'', subtype = None,
               confidence = min 0.9 (calculateRiskScore now ms + 0.1),
               plocation = loc,
               statistics = RiskStats (calculateRiskScore now ms)
                              (categorizeRiskLevel (calculateRiskScore now ms)) (length ms)
                              (getSeverityDistribution ms) (getRecentActivityLevel now ms),
               relatedIncidents = map ident ms,
               riskLevel = categorizeRiskLevel (calculateRiskScore now ms)\<rparr>"
    unfolding lm riskOfGroup_def Let_def fst_conv snd_conv
    by (simp split: if_splits)
  with ms show ?thesis by blast
qed

lemma assessAreaRisk_wellFormed:
  assumes "assessAreaRisk now incidents = Inr ps" and "p \<in> set ps"
  shows "wellFormedPattern incidents p"
proof -
  from assessAreaRisk_shape [OF assms] obtain loc ms
    where ms: "ms = filter (\<lambda>i. locationKey i = Some loc) incidents" "ms \<noteq> []"
      and score: "calculateRiskScore now ms \<ge> 0.5"
      and p: "p = \<lparr>ptype = ''risk-assessment'', subtype = None,
                   confidence = min 0.9 (calculateRiskScore now ms + 0.1),
                   plocation = loc,
                   statistics = RiskStats (calculateRiskScore now ms)
                                  (categorizeRiskLevel (calculateRiskScore now ms)) (length ms)
                                  (getSeverityDistribution ms) (getRecentActivityLevel now ms),
                   relatedIncidents = map ident ms,
                   riskLevel = categorizeRiskLevel (calculateRiskScore now ms)\<rparr>"
    by blast
  have conf: "confidence p = min 0.9 (calculateRiskScore now ms + 0.1)"
    and rel: "relatedIncidents p = map ident ms"
    by (simp_all add: p)
  have "0 \<le> confidence p \<and> confidence p \<le> 1" unfolding conf using score by (simp add: min_def)
  moreover have "relatedIncidents p \<noteq> []" using rel ms(2) by auto
  moreover have "set (relatedIncidents p) \<subseteq> ident ` set incidents"
    unfolding rel ms(1) by (rule ident_filter_subset)
  ultimately show ?thesis by (simp add: wellFormedPattern_def)
qed

subsection \<open>All detectors\<close>

lemma runDetectors_wellFormed:
  assumes "runDetectors now incidents = Inr results" and "p \<in> set (allResults results)"
  shows "wellFormedPattern incidents p"
proof -
  from assms(1) obtain hs ts gs ps rs
    where d: "detectCrimeHotspots incidents = Inr hs"
      "analyzeTemporalPatterns incidents = Inr ts"
      "performGeographicClustering incidents = Inr gs"
      "predictFutureHotspots now incidents = Inr ps"
      "assessAreaRisk now incidents = Inr rs"
      and r: "results = \<lparr>hotspots = hs, temporalPatterns = ts,
                          crimeSeries = detectCrimeSeries incidents,
                          geographicClusters = gs, predictiveHotspots = ps, riskAssessment = rs\<rparr>"
    by (auto simp: runDetectors_def split: sum.splits)
  from assms(2) have "p \<in> set hs \<or> p \<in> set ts \<or> p \<in> set (detectCrimeSeries incidents)
      \<or> p \<in> set gs \<or> p \<in> set ps \<or> p \<in> set rs"
    by (auto simp: allResults_def r)
  then show ?thesis
    using detectCrimeHotspots_wellFormed [OF d(1)] analyzeTemporalPatterns_wellFormed [OF d(2)]
      detectCrimeSeries_wellFormed performGeographicClustering_wellFormed [OF d(3)]
      predictFutureHotspots_wellFormed [OF d(4)] assessAreaRisk_wellFormed [OF d(5)]
    by blast
qed

section \<open>Evaluating the detectors on the example inputs\<close>

lemmas js_eval = toString_def digits.simps digit_char_def sortDefault_def sortBy_def defaultCompare_def
  array_index_def is_digit_def digits_val_def digit_val_def index_key_def Object_entries_def
  parseInt_def toLowerCase_def lower_char_def trim_def is_space_def lookup_def reduce1_def nameAt_def

lemmas detector_eval = groupByLocation_def groupByLocation_step_def inheritedProperty_def
  groupByCrimeType_def
  groupByCrimeType_step_def count_step_def getCrimeTypeDistribution_def getSeverityDistribution_def
  msPerDay_def calculateTimeSpan_def calculateTimeSpread_def calculateCrimeDensity_def severityMap_def
  calculateAverageSeverity_def calculateHotspotConfidence_def categorizeRiskLevel_def
  assessRiskLevel_def getRecentActivityLevel_def calculateRiskScore_def count_greater_def
  classifyHotspotType_def hotspotOfGroup_def detectCrimeHotspots_def byCountDesc_def hourlyPattern_def
  hourCounts_def detectHourlyPatterns_def dayNames_def dailyPattern_def dayCounts_def
  detectDailyPatterns_def monthNames_def monthCounts_def seasonalPattern_def findCrimeClusters_def
  calculateSeriesConfidence_def seriesOfCluster_def seriesOfType_def detectCrimeSeries_def
  locationItemOf_def clusterByDistance_def calculateClusterConfidence_def patternOfCluster_def
  performGeographicClustering_def trendOfGroup_def analyzeTrends_def predictionOfTrend_def
  predictFutureHotspots_def riskOfGroup_def assessAreaRisk_def mkDate_def mkIncident_def Let_def

lemma toFixed1_100: "toFixed1 100 = ''100.0''"
  by code_simp

lemma fourPlaces_hotspots: "detectCrimeHotspots fourPlaces = Inr []"
  by (simp add: fourPlaces_def js_eval detector_eval)

lemma fourPlaces_hourly: "detectHourlyPatterns fourPlaces = [fourPlacesHourly]"
  by (simp add: fourPlaces_def fourPlacesHourly_def js_eval detector_eval toFixed1_100)

lemma fourPlaces_daily: "detectDailyPatterns fourPlaces = []"
  by (simp add: fourPlaces_def js_eval detector_eval)

lemma fourPlaces_monthCounts: "monthCounts fourPlaces = [(''10'', 4)]"
  by (simp add: fourPlaces_def js_eval detector_eval)

lemma fourPlaces_seasonal: "detectSeasonalPatterns fourPlaces = Inr [fourPlacesSeasonal]"
proof -
  have e: "Object_entries [(''10'', 4 :: nat)] = [(''10'', 4)]"
    by (simp add: js_eval)
  have p: "seasonalPattern fourPlaces (''10'', 4) = [fourPlacesSeasonal]"
    by (simp add: fourPlaces_def fourPlacesSeasonal_def js_eval detector_eval toFixed1_100)
  show ?thesis
    by (simp add: detectSeasonalPatterns_def fourPlaces_monthCounts e reduce1_def p)
qed

lemma fourPlaces_temporal:
  "analyzeTemporalPatterns fourPlaces = Inr [fourPlacesHourly, fourPlacesSeasonal]"
  by (simp add: analyzeTemporalPatterns_def fourPlaces_hourly fourPlaces_daily fourPlaces_seasonal)

lemma fourPlaces_series: "detectCrimeSeries fourPlaces = []"
  by (simp add: fourPlaces_def js_eval detector_eval)

lemma fourPlaces_clusters: "performGeographicClustering fourPlaces = Inr [fourPlacesCluster]"
  by (simp add: fourPlaces_def fourPlacesCluster_def js_eval detector_eval)

lemma fourPlaces_predictions: "predictFutureHotspots 1700300000000 fourPlaces = Inr []"
  by (simp add: fourPlaces_def js_eval detector_eval)

lemma fourPlaces_risk: "assessAreaRisk 1700300000000 fourPlaces = Inr []"
  by (simp add: fourPlaces_def js_eval detector_eval)

lemma fourPlaces_detectors: "runDetectors 1700300000000 fourPlaces = Inr fourPlacesResults"
  by (simp add: runDetectors_def fourPlacesResults_def fourPlaces_hotspots fourPlaces_temporal
      fourPlaces_series fourPlaces_clusters fourPlaces_predictions fourPlaces_risk)

lemma fourPlaces_run:
  "runComprehensiveAnalysis 1700300000000 None fourPlaces =
     Inr \<lparr>success = True, message = None,
          patterns = [fourPlacesHourly, fourPlacesSeasonal, fourPlacesCluster],
          resultStatistics = generateAdvancedStats fourPlaces fourPlacesResults,
          resultMetadata = Some \<lparr>analysisDate = 1700300000000, metaTotalIncidents = 4,
            algorithmsUsed = [''hotspots'', ''temporalPatterns'', ''crimeSeries'',
                              ''geographicClusters'', ''predictiveHotspots'', ''riskAssessment'']\<rparr>\<rparr>"
proof -
  have len: "length fourPlaces = 4" by (simp add: fourPlaces_def)
  have all: "allResults fourPlacesResults = [fourPlacesHourly, fourPlacesSeasonal, fourPlacesCluster]"
    by (simp add: allResults_def fourPlacesResults_def)
  have srt: "sortBy comparePatterns [fourPlacesHourly, fourPlacesSeasonal, fourPlacesCluster]
               = [fourPlacesHourly, fourPlacesSeasonal, fourPlacesCluster]"
    by (simp add: sortBy_def comparePatterns_def fourPlacesHourly_def fourPlacesSeasonal_def
        fourPlacesCluster_def)
  have flt: "filter (\<lambda>p. 1 \<le> confidence p * 2) [fourPlacesHourly, fourPlacesSeasonal, fourPlacesCluster]
               = [fourPlacesHourly, fourPlacesSeasonal, fourPlacesCluster]"
    by (simp add: fourPlacesHourly_def fourPlacesSeasonal_def fourPlacesCluster_def)
  show ?thesis
    by (simp add: runComprehensiveAnalysis_def Let_def len fourPlaces_detectors all flt srt
        del: filter.simps)
qed

section \<open>Confidence and related incidents of the returned patterns\<close>

text \<open>
  Claim C1. For every successful run of \<open>runComprehensiveAnalysis\<close>, every pattern of the
  returned list has a confidence in [0, 1] that is at least the caller's \<open>minConfidence\<close>
  (0.5 when the caller gives none), and a non-empty list of related incidents, all of them
  identifiers of incidents of the filtered set of that run.
\<close>

theorem returned_patterns_confident_and_grounded:
  assumes "runComprehensiveAnalysis now minConfidenceOpt incidents = Inr result"
    and "success result"
    and "p \<in> set (patterns result)"
  shows "0 \<le> confidence p \<and> confidence p \<le> 1
    \<and> confidence p \<ge> (case minConfidenceOpt of None \<Rightarrow> 0.5 | Some m \<Rightarrow> m)
    \<and> relatedIncidents p \<noteq> []
    \<and> set (relatedIncidents p) \<subseteq> ident ` set incidents"
proof -
  let ?m = "case minConfidenceOpt of None \<Rightarrow> 0.5 | Some m \<Rightarrow> m"
  from assms(1,2) obtain results where d: "runDetectors now incidents = Inr results"
    and ps: "patterns result = sortBy comparePatterns (filter (\<lambda>p. confidence p \<ge> ?m) (allResults results))"
    by (auto simp: runComprehensiveAnalysis_def Let_def split: if_splits sum.splits)
  from assms(3) have mem: "p \<in> set (allResults results)" and conf: "confidence p \<ge> ?m"
    unfolding ps by (simp_all add: set_sortBy)
  from runDetectors_wellFormed [OF d mem] conf show ?thesis
    by (simp add: wellFormedPattern_def)
qed

theorem returned_patterns_confident_and_grounded_witness:
  "runComprehensiveAnalysis 1700300000000 None fourPlaces =
     Inr \<lparr>success = True, message = None,
          patterns = [fourPlacesHourly, fourPlacesSeasonal, fourPlacesCluster],
          resultStatistics = generateAdvancedStats fourPlaces fourPlacesResults,
          resultMetadata = Some \<lparr>analysisDate = 1700300000000, metaTotalIncidents = 4,
            algorithmsUsed = [''hotspots'', ''temporalPatterns'', ''crimeSeries'',
                              ''geographicClusters'', ''predictiveHotspots'', ''riskAssessment'']\<rparr>\<rparr>
   \<and> 0 \<le> confidence fourPlacesCluster \<and> confidence fourPlacesCluster \<le> 1
   \<and> confidence fourPlacesCluster \<ge> 0.5
   \<and> relatedIncidents fourPlacesCluster \<noteq> []
   \<and> set (relatedIncidents fourPlacesCluster) \<subseteq> ident ` set fourPlaces"
  using returned_patterns_confident_and_grounded [OF fourPlaces_run, of fourPlacesCluster] fourPlaces_run
  by simp

section \<open>Ranking of the returned patterns\<close>

lemma comparePatterns_rankKey: "comparePatterns a b \<le> 0 \<longleftrightarrow> rankKey a \<le> rankKey b"
  by (auto simp: comparePatterns_def rankKey_def less_eq_prod_def)

lemma sortBy_comparePatterns: "sortBy comparePatterns ps = sort_key rankKey ps"
  by (rule sortBy_sort_key) (rule comparePatterns_rankKey)

lemma sorted_sortBy_comparePatterns:
  "sorted_wrt (\<lambda>a b. confidence a > confidence b
       \<or> (confidence a = confidence b \<and> length (relatedIncidents a) \<ge> length (relatedIncidents b)))
     (sortBy comparePatterns ps)"
proof -
  have "sorted (map rankKey (sort_key rankKey ps))" by (rule sorted_sort_key)
  then have "sorted_wrt (\<lambda>a b. rankKey a \<le> rankKey b) (sort_key rankKey ps)"
    by (simp add: sorted_map)
  then show ?thesis
    unfolding sortBy_comparePatterns
    by (rule sorted_wrt_mono_rel [rotated]) (auto simp: rankKey_def less_eq_prod_def)
qed

lemma stable_sortBy_comparePatterns:
  "filter (\<lambda>p. confidence p = c \<and> length (relatedIncidents p) = n) (sortBy comparePatterns ps)
     = filter (\<lambda>p. confidence p = c \<and> length (relatedIncidents p) = n) ps"
proof -
  have eq: "(\<lambda>p. confidence p = c \<and> length (relatedIncidents p) = n) = (\<lambda>p. rankKey p = (- c, - int n))"
    by (auto simp: rankKey_def fun_eq_iff)
  show ?thesis unfolding eq sortBy_comparePatterns by (rule sort_key_stable)
qed

text \<open>
  Claim C2. For every successful run, the returned list is made from the outputs of the
  six detectors, concatenated in the order hotspots, temporal patterns, crime series,
  geographic clusters, predictive hotspots, risk assessments: it has exactly the patterns
  of the concatenation whose confidence is not below \<open>minConfidence\<close>, it is sorted by
  confidence descending and, among equal confidences, by the number of related incidents
  descending, and patterns equal on both keys keep the order of the concatenation.
\<close>

theorem returned_patterns_ranked:
  assumes "runComprehensiveAnalysis now minConfidenceOpt incidents = Inr result"
    and "success result"
  shows "\<exists>hs ts gs ps rs.
      detectCrimeHotspots incidents = Inr hs
    \<and> analyzeTemporalPatterns incidents = Inr ts
    \<and> performGeographicClustering incidents = Inr gs
    \<and> predictFutureHotspots now incidents = Inr ps
    \<and> assessAreaRisk now incidents = Inr rs
    \<and> mset (patterns result) =
        mset (filter (\<lambda>p. \<not> confidence p < (case minConfidenceOpt of None \<Rightarrow> 0.5 | Some m \<Rightarrow> m))
                (hs @ ts @ detectCrimeSeries incidents @ gs @ ps @ rs))
    \<and> sorted_wrt (\<lambda>a b. confidence a > confidence b
          \<or> (confidence a = confidence b
              \<and> length (relatedIncidents a) \<ge> length (relatedIncidents b)))
        (patterns result)
    \<and> (\<forall>c n. filter (\<lambda>p. confidence p = c \<and> length (relatedIncidents p) = n) (patterns result)
          = filter (\<lambda>p. confidence p = c \<and> length (relatedIncidents p) = n)
              (filter (\<lambda>p. \<not> confidence p < (case minConfidenceOpt of None \<Rightarrow> 0.5 | Some m \<Rightarrow> m))
                 (hs @ ts @ detectCrimeSeries incidents @ gs @ ps @ rs)))"
proof -
  let ?m = "case minConfidenceOpt of None \<Rightarrow> 0.5 | Some m \<Rightarrow> m"
  from assms obtain results where d: "runDetectors now incidents = Inr results"
    and ps: "patterns result = sortBy comparePatterns (filter (\<lambda>p. confidence p \<ge> ?m) (allResults results))"
    by (auto simp: runComprehensiveAnalysis_def Let_def split: if_splits sum.splits)
  from d obtain hs ts gs ps' rs
    where det: "detectCrimeHotspots incidents = Inr hs"
      "analyzeTemporalPatterns incidents = Inr ts"
      "performGeographicClustering incidents = Inr gs"
      "predictFutureHotspots now incidents = Inr ps'"
      "assessAreaRisk now incidents = Inr rs"
      and r: "results = \<lparr>hotspots = hs, temporalPatterns = ts,
                          crimeSeries = detectCrimeSeries incidents,
                          geographicClusters = gs, predictiveHotspots = ps', riskAssessment = rs\<rparr>"
    by (auto simp: runDetectors_def split: sum.splits)
  have all: "allResults results = hs @ ts @ detectCrimeSeries incidents @ gs @ ps' @ rs"
    by (simp add: allResults_def r)
  have ge: "(\<lambda>p. confidence p \<ge> ?m) = (\<lambda>p. \<not> confidence p < ?m)"
    by (auto simp: fun_eq_iff)
  have ps2: "patterns result = sortBy comparePatterns
      (filter (\<lambda>p. \<not> confidence p < ?m) (hs @ ts @ detectCrimeSeries incidents @ gs @ ps' @ rs))"
    unfolding ps all ge ..
  show ?thesis
    apply (rule exI [of _ hs], rule exI [of _ ts], rule exI [of _ gs], rule exI [of _ ps'],
        rule exI [of _ rs])
    apply (intro conjI det)
      apply (simp only: ps2 mset_sortBy)
     apply (simp only: ps2 sorted_sortBy_comparePatterns)
    apply (simp only: ps2 stable_sortBy_comparePatterns)
    apply simp
    done
qed


lemma toFixed1_80: "toFixed1 80 = ''80.0''"
  by code_simp

lemma fiveThefts_hotspots: "detectCrimeHotspots fiveThefts = Inr []"
  by (simp add: fiveThefts_def js_eval detector_eval)

lemma fiveThefts_hourly: "detectHourlyPatterns fiveThefts = []"
  by (simp add: fiveThefts_def js_eval detector_eval)

lemma fiveThefts_daily: "detectDailyPatterns fiveThefts = []"
  by (simp add: fiveThefts_def js_eval detector_eval)

lemma fiveThefts_monthCounts: "monthCounts fiveThefts = [(''10'', 4), (''9'', 1)]"
  by (simp add: fiveThefts_def js_eval detector_eval)

lemma fiveThefts_seasonal: "detectSeasonalPatterns fiveThefts = Inr [fiveTheftsSeasonal]"
proof -
  have e: "Object_entries [(''10'', 4 :: nat), (''9'', 1)] = [(''9'', 1), (''10'', 4)]"
    by (simp add: js_eval)
  have r: "reduce1 (\<lambda>a b. if count_greater [(''10'', 4), (''9'', 1)] a b then a else b)
             [(''9'', 1), (''10'', 4)] = Inr (''10'', 4)"
    by (simp add: reduce1_def count_greater_def lookup_def)
  have p: "seasonalPattern fiveThefts (''10'', 4) = [fiveTheftsSeasonal]"
    by (simp add: fiveThefts_def fiveTheftsSeasonal_def js_eval detector_eval toFixed1_80)
  show ?thesis
    unfolding detectSeasonalPatterns_def fiveThefts_monthCounts Let_def e r by (simp add: p)
qed

lemma fiveThefts_temporal: "analyzeTemporalPatterns fiveThefts = Inr [fiveTheftsSeasonal]"
  by (simp add: analyzeTemporalPatterns_def fiveThefts_hourly fiveThefts_daily fiveThefts_seasonal)

lemma fiveThefts_timeSpan: "calculateTimeSpan fiveThefts = 1300000000"
  by (simp add: fiveThefts_def calculateTimeSpan_def mkIncident_def mkDate_def js_eval)

lemma fiveThefts_groupByCrimeType: "groupByCrimeType fiveThefts = [(''theft'', fiveThefts)]"
  by (simp add: fiveThefts_def groupByCrimeType_def groupByCrimeType_step_def lookup_def mkIncident_def)

lemma fiveThefts_series: "detectCrimeSeries fiveThefts = [fiveTheftsSeries]"
proof -
  have e: "Object_entries [(''theft'', fiveThefts)] = [(''theft'', fiveThefts)]"
    by (simp add: js_eval)
  have len: "length fiveThefts = 5" and ids: "map ident fiveThefts = [''d1'', ''d2'', ''d3'', ''d4'', ''d5'']"
    by (simp_all add: fiveThefts_def mkIncident_def)
  show ?thesis
    by (simp add: detectCrimeSeries_def fiveThefts_groupByCrimeType e seriesOfType_def
        findCrimeClusters_def seriesOfCluster_def calculateSeriesConfidence_def len ids
        fiveThefts_timeSpan categorizeRiskLevel_def fiveTheftsSeries_def)
qed

lemma fiveThefts_clusters: "performGeographicClustering fiveThefts = Inr [fiveTheftsCluster]"
  by (simp add: fiveThefts_def fiveTheftsCluster_def js_eval detector_eval)

lemma fiveThefts_predictions: "predictFutureHotspots 1700100000000 fiveThefts = Inr []"
  by (simp add: fiveThefts_def js_eval detector_eval)

lemma fiveThefts_risk: "assessAreaRisk 1700100000000 fiveThefts = Inr []"
  by (simp add: fiveThefts_def js_eval detector_eval)

lemma fiveThefts_detectors: "runDetectors 1700100000000 fiveThefts = Inr fiveTheftsResults"
  by (simp add: runDetectors_def fiveTheftsResults_def fiveThefts_hotspots fiveThefts_temporal
      fiveThefts_series fiveThefts_clusters fiveThefts_predictions fiveThefts_risk)

lemma fiveThefts_run:
  "runComprehensiveAnalysis 1700100000000 None fiveThefts = Inr fiveTheftsResult"
proof -
  have len: "length fiveThefts = 5" by (simp add: fiveThefts_def)
  have all: "allResults fiveTheftsResults = [fiveTheftsSeasonal, fiveTheftsSeries, fiveTheftsCluster]"
    by (simp add: allResults_def fiveTheftsResults_def)
  have flt: "filter (\<lambda>p. 1 \<le> confidence p * 2) [fiveTheftsSeasonal, fiveTheftsSeries, fiveTheftsCluster]
               = [fiveTheftsSeasonal, fiveTheftsSeries, fiveTheftsCluster]"
    by (simp add: fiveTheftsSeasonal_def fiveTheftsSeries_def fiveTheftsCluster_def)
  have srt: "sortBy comparePatterns [fiveTheftsSeasonal, fiveTheftsSeries, fiveTheftsCluster]
               = [fiveTheftsSeries, fiveTheftsSeasonal, fiveTheftsCluster]"
    by (simp add: sortBy_def comparePatterns_def fiveTheftsSeasonal_def fiveTheftsSeries_def
        fiveTheftsCluster_def)
  show ?thesis
    by (simp add: runComprehensiveAnalysis_def Let_def len fiveThefts_detectors all flt srt
        fiveTheftsResult_def del: filter.simps)
qed

theorem returned_patterns_ranked_witness:
  "runComprehensiveAnalysis 1700100000000 None fiveThefts = Inr fiveTheftsResult
   \<and> success fiveTheftsResult
   \<and> patterns fiveTheftsResult = [fiveTheftsSeries, fiveTheftsSeasonal, fiveTheftsCluster]
   \<and> (\<exists>hs ts gs ps rs.
      detectCrimeHotspots fiveThefts = Inr hs
    \<and> analyzeTemporalPatterns fiveThefts = Inr ts
    \<and> performGeographicClustering fiveThefts = Inr gs
    \<and> predictFutureHotspots 1700100000000 fiveThefts = Inr ps
    \<and> assessAreaRisk 1700100000000 fiveThefts = Inr rs
    \<and> mset (patterns fiveTheftsResult) =
        mset (filter (\<lambda>p. \<not> confidence p < (case None of None \<Rightarrow> 0.5 | Some m \<Rightarrow> m))
                (hs @ ts @ detectCrimeSeries fiveThefts @ gs @ ps @ rs))
    \<and> sorted_wrt (\<lambda>a b. confidence a > confidence b
          \<or> (confidence a = confidence b
              \<and> length (relatedIncidents a) \<ge> length (relatedIncidents b)))
        (patterns fiveTheftsResult)
    \<and> (\<forall>c n. filter (\<lambda>p. confidence p = c \<and> length (relatedIncidents p) = n) (patterns fiveTheftsResult)
          = filter (\<lambda>p. confidence p = c \<and> length (relatedIncidents p) = n)
              (filter (\<lambda>p. \<not> confidence p < (case None of None \<Rightarrow> 0.5 | Some m \<Rightarrow> m))
                 (hs @ ts @ detectCrimeSeries fiveThefts @ gs @ ps @ rs))))"
proof -
  have ok: "success fiveTheftsResult"
    and ps: "patterns fiveTheftsResult = [fiveTheftsSeries, fiveTheftsSeasonal, fiveTheftsCluster]"
    by (simp_all add: fiveTheftsResult_def)
  from returned_patterns_ranked [OF fiveThefts_run ok] fiveThefts_run ok ps
  show ?thesis by (intro conjI)
qed

section \<open>Hourly temporal patterns\<close>

lemma sortBy_byCountDesc: "sortBy byCountDesc es = sort_key (\<lambda>e. - int (snd e)) es"
  by (rule sortBy_sort_key) (simp add: byCountDesc_def)

lemma sorted_sortBy_byCountDesc: "sorted_wrt (\<lambda>a b. snd a \<ge> snd b) (sortBy byCountDesc es)"
proof -
  have "sorted (map (\<lambda>e. - int (snd e)) (sort_key (\<lambda>e. - int (snd e)) es))"
    by (rule sorted_sort_key)
  then have "sorted_wrt (\<lambda>a b. - int (snd a) \<le> - int (snd b)) (sort_key (\<lambda>e. - int (snd e)) es)"
    by (simp add: sorted_map)
  then show ?thesis
    unfolding sortBy_byCountDesc by (rule sorted_wrt_mono_rel [rotated]) simp
qed

lemma sum_assign:
  "sum_list (map snd (assign obj k ((case lookup obj k of None \<Rightarrow> 0 | Some c \<Rightarrow> c) + 1)))
     = sum_list (map snd obj) + (1 :: nat)"
  by (induction obj) (auto simp: lookup_def)

lemma sum_count_step: "sum_list (map snd (count_step c k)) = Suc (sum_list (map snd c))"
  unfolding count_step_def by (simp only: sum_assign)

lemma sum_counts:
  "sum_list (map snd (foldl (\<lambda>counts x. count_step counts (key x)) c xs))
     = sum_list (map snd c) + length xs"
  by (induction xs arbitrary: c) (simp_all add: sum_count_step)

lemma sum_hourCounts: "sum_list (map snd (hourCounts incidents)) = length incidents"
  by (simp add: hourCounts_def sum_counts)

lemma hourCounts_iff:
  "(k, n) \<in> set (hourCounts incidents) \<longleftrightarrow>
     (\<exists>h. k = toString (int h) \<and> n = length (hourBucket incidents h) \<and> n > 0)"
proof
  assume "(k, n) \<in> set (hourCounts incidents)"
  from numeric_counts_entry [OF this [unfolded hourCounts_def]]
  show "\<exists>h. k = toString (int h) \<and> n = length (hourBucket incidents h) \<and> n > 0"
    by (auto simp: hourBucket_def)
next
  assume "\<exists>h. k = toString (int h) \<and> n = length (hourBucket incidents h) \<and> n > 0"
  then obtain h where h: "k = toString (int h)" "n = length (hourBucket incidents h)" "n > 0"
    by blast
  then obtain i where i: "i \<in> set incidents" "getHours (dateTime i) = h"
    by (auto simp: hourBucket_def filter_empty_conv)
  from numeric_counts_member [OF i(1), of "\<lambda>i. getHours (dateTime i)"] i(2) h(1,2)
  show "(k, n) \<in> set (hourCounts incidents)"
    by (simp add: hourCounts_def hourBucket_def)
qed

lemma hourlyPattern_of_bucket:
  "hourlyPattern incidents (toString (int h), n) =
     (if n \<ge> 3 then
        [\<lparr>ptype = ''temporal-pattern'', subtype = Some ''hourly'',
          confidence = min 0.9 (of_nat n / of_nat (length incidents) * 4),
          plocation = ''Multiple locations'',
          statistics = HourlyStats (Some h) n (toFixed1 (of_nat n / of_nat (length incidents) * 100)),
          relatedIncidents = map ident (hourBucket incidents h),
          riskLevel = (if min 0.9 (of_nat n / of_nat (length incidents) * 4) > (0.7 :: rat) then ''high''
                       else if min 0.9 (of_nat n / of_nat (length incidents) * 4) > (0.5 :: rat)
                       then ''medium'' else ''low'')\<rparr>]
      else [])"
  unfolding hourlyPattern_def Let_def fst_conv snd_conv parseInt_toString hourBucket_def
    option.inject ..

lemma sum_list_ge_const:
  "\<forall>z \<in> set zs. c \<le> (f z :: nat) \<Longrightarrow> c * length zs \<le> sum_list (map f zs)"
  by (induction zs) auto

lemma peak_bucket_in_top3:
  assumes "length incidents = 10" and "length (hourBucket incidents 2) = 5"
  shows "(toString 2, 5) \<in> set (take 3 (sortBy byCountDesc (Object_entries (hourCounts incidents))))"
proof -
  let ?e = "(toString 2, 5 :: nat)"
  let ?ranked = "sortBy byCountDesc (Object_entries (hourCounts incidents))"
  have "?e \<in> set (hourCounts incidents)"
    unfolding hourCounts_iff using assms(2) by (intro exI [of _ 2]) simp
  then have "?e \<in> set ?ranked" by (simp add: set_sortBy set_Object_entries)
  then obtain pre post where split: "?ranked = pre @ ?e # post"
    by (meson split_list)
  have "sorted_wrt (\<lambda>a b. snd a \<ge> snd b) (pre @ ?e # post)"
    using sorted_sortBy_byCountDesc [of "Object_entries (hourCounts incidents)"] split by simp
  then have "\<forall>z \<in> set pre. 5 \<le> snd z"
    by (auto simp: sorted_wrt_append)
  then have pre: "5 * length pre \<le> sum_list (map snd pre)"
    by (rule sum_list_ge_const)
  have "mset (map snd ?ranked) = mset (map snd (hourCounts incidents))"
    by (simp add: mset_sortBy mset_Object_entries)
  then have "sum_list (map snd ?ranked) = sum_list (map snd (hourCounts incidents))"
    by (metis sum_mset_sum_list)
  then have "sum_list (map snd pre) + 5 + sum_list (map snd post) = 10"
    using split sum_hourCounts [of incidents] assms(1) by simp
  with pre have "length pre \<le> 1" by simp
  then have "?e \<in> set (take 3 (pre @ ?e # post))"
    by (cases pre) auto
  then show ?thesis using split by simp
qed


lemma toFixed1_50: "toFixed1 50 = ''50.0''"
  by code_simp

text \<open>
  Claim C8. The hourly analysis counts the incidents of the whole filtered set by hour of
  the day: the keys of \<open>hourCounts\<close> are the hours that occur, each with the size of its
  bucket. The patterns come from the first three buckets of the bucket list sorted by count
  descending, one pattern for each of them whose count is at least 3, with confidence
  \<open>min(0.9, count / total * 4)\<close> and with exactly the members of the bucket as related
  incidents. In particular, when 5 of 10 incidents fall at hour 2, a pattern with
  \<open>peakHour = 2\<close> and \<open>percentage = "50.0"\<close> is emitted.
\<close>

theorem hourly_patterns_from_top_three_buckets:
  "(\<forall>k n. (k, n) \<in> set (hourCounts incidents) \<longleftrightarrow>
       (\<exists>h. k = toString (int h) \<and> n = length (hourBucket incidents h) \<and> n > 0))
   \<and> (\<exists>ranked. mset ranked = mset (hourCounts incidents)
         \<and> sorted_wrt (\<lambda>a b. snd a \<ge> snd b) ranked
         \<and> detectHourlyPatterns incidents = concat (map (hourlyPattern incidents) (take 3 ranked)))
   \<and> (\<forall>h n. hourlyPattern incidents (toString (int h), n) =
         (if n \<ge> 3 then
            [\<lparr>ptype = ''temporal-pattern'', subtype = Some ''hourly'',
              confidence = min 0.9 (of_nat n / of_nat (length incidents) * 4),
              plocation = ''Multiple locations'',
              statistics = HourlyStats (Some h) n (toFixed1 (of_nat n / of_nat (length incidents) * 100)),
              relatedIncidents = map ident (hourBucket incidents h),
              riskLevel = (if min 0.9 (of_nat n / of_nat (length incidents) * 4) > (0.7 :: rat) then ''high''
                           else if min 0.9 (of_nat n / of_nat (length incidents) * 4) > (0.5 :: rat)
                           then ''medium'' else ''low'')\<rparr>]
          else []))
   \<and> (length incidents = 10 \<and> length (hourBucket incidents 2) = 5 \<longrightarrow>
        (\<exists>p \<in> set (detectHourlyPatterns incidents).
           statistics p = HourlyStats (Some 2) 5 ''50.0''
           \<and> confidence p = 0.9
           \<and> relatedIncidents p = map ident (hourBucket incidents 2)))"
proof (intro conjI allI impI)
  fix k n
  show "(k, n) \<in> set (hourCounts incidents) \<longleftrightarrow>
       (\<exists>h. k = toString (int h) \<and> n = length (hourBucket incidents h) \<and> n > 0)"
    by (rule hourCounts_iff)
next
  let ?ranked = "sortBy byCountDesc (Object_entries (hourCounts incidents))"
  have "mset ?ranked = mset (hourCounts incidents)"
    by (simp add: mset_sortBy mset_Object_entries)
  moreover have "sorted_wrt (\<lambda>a b. snd a \<ge> snd b) ?ranked"
    by (rule sorted_sortBy_byCountDesc)
  moreover have "detectHourlyPatterns incidents = concat (map (hourlyPattern incidents) (take 3 ?ranked))"
    by (simp add: detectHourlyPatterns_def)
  ultimately show "\<exists>ranked. mset ranked = mset (hourCounts incidents)
         \<and> sorted_wrt (\<lambda>a b. snd a \<ge> snd b) ranked
         \<and> detectHourlyPatterns incidents = concat (map (hourlyPattern incidents) (take 3 ranked))"
    by blast
next
  fix h n
  show "hourlyPattern incidents (toString (int h), n) =
         (if n \<ge> 3 then
            [\<lparr>ptype = ''temporal-pattern'', subtype = Some ''hourly'',
              confidence = min 0.9 (of_nat n / of_nat (length incidents) * 4),
              plocation = ''Multiple locations'',
              statistics = HourlyStats (Some h) n (toFixed1 (of_nat n / of_nat (length incidents) * 100)),
              relatedIncidents = map ident (hourBucket incidents h),
              riskLevel = (if min 0.9 (of_nat n / of_nat (length incidents) * 4) > (0.7 :: rat) then ''high''
                           else if min 0.9 (of_nat n / of_nat (length incidents) * 4) > (0.5 :: rat)
                           then ''medium'' else ''low'')\<rparr>]
          else [])"
    by (rule hourlyPattern_of_bucket)
next
  assume a: "length incidents = 10 \<and> length (hourBucket incidents 2) = 5"
  let ?p = "\<lparr>ptype = ''temporal-pattern'', subtype = Some ''hourly'',
              confidence = min 0.9 (of_nat 5 / of_nat (length incidents) * 4),
              plocation = ''Multiple locations'',
              statistics = HourlyStats (Some 2) 5 (toFixed1 (of_nat 5 / of_nat (length incidents) * 100)),
              relatedIncidents = map ident (hourBucket incidents 2),
              riskLevel = (if min 0.9 (of_nat 5 / of_nat (length incidents) * 4) > (0.7 :: rat) then ''high''
                           else if min 0.9 (of_nat 5 / of_nat (length incidents) * 4) > (0.5 :: rat)
                           then ''medium'' else ''low'')\<rparr>"
  have top: "(toString 2, 5) \<in> set (take 3 (sortBy byCountDesc (Object_entries (hourCounts incidents))))"
    using a by (intro peak_bucket_in_top3) simp_all
  have "hourlyPattern incidents (toString (int 2), 5) = [?p]"
    by (simp only: hourlyPattern_of_bucket) simp
  then have "hourlyPattern incidents (toString 2, 5) = [?p]"
    by simp
  with top have "?p \<in> set (detectHourlyPatterns incidents)"
    by (force simp: detectHourlyPatterns_def)
  moreover have "statistics ?p = HourlyStats (Some 2) 5 ''50.0''"
    using a by (simp add: toFixed1_50)
  moreover have "confidence ?p = 0.9"
    using a by simp
  moreover have "relatedIncidents ?p = map ident (hourBucket incidents 2)"
    by simp
  ultimately show "\<exists>p \<in> set (detectHourlyPatterns incidents).
           statistics p = HourlyStats (Some 2) 5 ''50.0''
           \<and> confidence p = 0.9
           \<and> relatedIncidents p = map ident (hourBucket incidents 2)"
    by blast
qed

theorem hourly_patterns_from_top_three_buckets_witness:
  "length tenIncidents = 10 \<and> length (hourBucket tenIncidents 2) = 5
   \<and> (\<exists>p \<in> set (detectHourlyPatterns tenIncidents).
         statistics p = HourlyStats (Some 2) 5 ''50.0''
         \<and> confidence p = 0.9
         \<and> relatedIncidents p = [''e1'', ''e3'', ''e5'', ''e7'', ''e9''])"
proof -
  have len: "length tenIncidents = 10"
    by (simp add: tenIncidents_def)
  have bucket: "map ident (hourBucket tenIncidents 2) = [''e1'', ''e3'', ''e5'', ''e7'', ''e9'']"
    by (simp add: tenIncidents_def hourBucket_def mkIncident_def mkDate_def)
  have "length (map ident (hourBucket tenIncidents 2)) = 5"
    unfolding bucket by simp
  then have five: "length (hourBucket tenIncidents 2) = 5"
    by simp
  from hourly_patterns_from_top_three_buckets [of tenIncidents] len five bucket
  show ?thesis by simp
qed

section \<open>Predictive hotspots\<close>


text \<open>
  The grouping of the recent incidents throws as soon as one of them has no location, or a
  location whose key is a property that a fresh object inherits; the detector then ends
  with that error. Incidents older than 14 days are never grouped.
\<close>

lemma predictFutureHotspots_ungroupable:
  "\<exists>i \<in> set (recentIncidents now incidents). \<not> groupable i \<Longrightarrow>
     predictFutureHotspots now incidents = Inl TypeError"
  using analyzeTrends_ungroupable [of "recentIncidents now incidents"]
  by (simp add: predictFutureHotspots_def recentIncidents_def)

lemma constructorIncidents_throw:
  "recentIncidents 1700000000000 constructorIncidents = constructorIncidents
   \<and> list_all (\<lambda>i. location i \<noteq> None) constructorIncidents
   \<and> groupByLocation constructorIncidents = Inl TypeError
   \<and> predictFutureHotspots 1700000000000 constructorIncidents = Inl TypeError"
proof -
  have r: "recentIncidents 1700000000000 constructorIncidents = constructorIncidents"
    by (simp add: recentIncidents_def constructorIncidents_def mkIncident_def mkDate_def
        msPerDay_def)
  have l: "list_all (\<lambda>i. location i \<noteq> None) constructorIncidents"
    by (simp add: constructorIncidents_def mkIncident_def)
  have g: "groupByLocation constructorIncidents = Inl TypeError"
    by (simp add: constructorIncidents_def groupByLocation_def groupByLocation_step_def
        inheritedProperty_def mkIncident_def Let_def js_eval)
  have "analyzeTrends (recentIncidents 1700000000000 constructorIncidents) = Inl TypeError"
    unfolding r by (simp add: analyzeTrends_def g)
  then have "predictFutureHotspots 1700000000000 constructorIncidents = Inl TypeError"
    by (simp add: predictFutureHotspots_def recentIncidents_def)
  with r l g show ?thesis by simp
qed






section \<open>The subtype of a hotspot\<close>

lemma foldl_last_greatest:
  assumes "\<forall>a \<in> set (x # xs). \<forall>b \<in> set (x # xs). P a b \<longleftrightarrow> v b < (v a :: nat)"
  shows "\<exists>pre post. x # xs = pre @ foldl (\<lambda>a b. if P a b then a else b) x xs # post
           \<and> (\<forall>e \<in> set pre. v e \<le> v (foldl (\<lambda>a b. if P a b then a else b) x xs))
           \<and> (\<forall>e \<in> set post. v e < v (foldl (\<lambda>a b. if P a b then a else b) x xs))"
  using assms
proof (induction xs arbitrary: x)
  case Nil
  show ?case by (intro exI [of _ "[]"]) simp
next
  case (Cons y ys)
  let ?f = "\<lambda>a b. if P a b then a else b"
  show ?case
  proof (cases "P x y")
    case True
    then have vy: "v y < v x" using Cons.prems by simp
    have "\<forall>a \<in> set (x # ys). \<forall>b \<in> set (x # ys). P a b \<longleftrightarrow> v b < v a"
      using Cons.prems by simp
    from Cons.IH [OF this] obtain pre post
      where s: "x # ys = pre @ foldl ?f x ys # post"
        and le: "\<forall>e \<in> set pre. v e \<le> v (foldl ?f x ys)"
        and lt: "\<forall>e \<in> set post. v e < v (foldl ?f x ys)"
      by blast
    have f: "foldl ?f x (y # ys) = foldl ?f x ys" using True by simp
    show ?thesis
    proof (cases pre)
      case Nil
      from s have "x # ys = foldl ?f x ys # post" unfolding Nil append_Nil .
      note mp = this [unfolded list.inject]
      note m = mp [THEN conjunct1, symmetric] and p = mp [THEN conjunct2, symmetric]
      have "\<forall>e \<in> set (y # ys). v e < v x"
        using lt vy unfolding m p by simp
      then show ?thesis
        unfolding f m
        by (intro exI [of _ "[]"] exI [of _ "y # ys"]) simp
    next
      case (Cons p pre')
      from s have "x # ys = p # (pre' @ foldl ?f x ys # post)" unfolding Cons append_Cons .
      note pp = this [unfolded list.inject]
      note px = pp [THEN conjunct1, symmetric] and ys = pp [THEN conjunct2, symmetric]
      have vx: "v x \<le> v (foldl ?f x ys)" using le Cons px by simp
      have "v y \<le> v (foldl ?f x ys)" using vx vy by simp
      then have "\<forall>e \<in> set (x # y # pre'). v e \<le> v (foldl ?f x ys)"
        using le vx Cons by simp
      moreover have "x # y # ys = (x # y # pre') @ foldl ?f x ys # post"
        using ys by simp
      ultimately show ?thesis
        unfolding f using lt by blast
    qed
  next
    case False
    then have vy: "v x \<le> v y" using Cons.prems by auto
    have "\<forall>a \<in> set (y # ys). \<forall>b \<in> set (y # ys). P a b \<longleftrightarrow> v b < v a"
      using Cons.prems by simp
    from Cons.IH [OF this] obtain pre post
      where s: "y # ys = pre @ foldl ?f y ys # post"
        and le: "\<forall>e \<in> set pre. v e \<le> v (foldl ?f y ys)"
        and lt: "\<forall>e \<in> set post. v e < v (foldl ?f y ys)"
      by blast
    have f: "foldl ?f x (y # ys) = foldl ?f y ys" using False by simp
    have "y \<in> set (pre @ [foldl ?f y ys])"
      using arg_cong [OF s, of hd] by (cases pre) simp_all
    then have vm: "v y \<le> v (foldl ?f y ys)"
      using le by auto
    have "\<forall>e \<in> set (x # pre). v e \<le> v (foldl ?f y ys)"
      using le vy vm by simp
    moreover have "x # y # ys = (x # pre) @ foldl ?f y ys # post"
      using s by simp
    ultimately show ?thesis
      unfolding f using lt by blast
  qed
qed



lemma keys_count_step:
  "map fst (count_step c k) = (if k \<in> set (map fst c) then map fst c else map fst c @ [k])"
  by (simp add: count_step_def keys_assign)

lemma keys_counts:
  "map fst (foldl (\<lambda>counts x. count_step counts (key x)) c xs)
     = map fst c @ filter (\<lambda>k. k \<notin> set (map fst c)) (firstOccurrences (map key xs))"
proof (induction xs arbitrary: c)
  case Nil
  show ?case by simp
next
  case (Cons x xs)
  let ?K = "set (map fst c)"
  let ?fo = "firstOccurrences (map key xs)"
  show ?case
  proof (cases "key x \<in> ?K")
    case True
    have "filter (\<lambda>k. k \<notin> ?K) (filter (\<lambda>y. y \<noteq> key x) ?fo) = filter (\<lambda>k. k \<notin> ?K) ?fo"
      unfolding filter_filter using True by (intro filter_cong refl) blast
    moreover have "map fst (count_step c (key x)) = map fst c"
      using True by (simp only: keys_count_step if_True)
    ultimately show ?thesis
      using True by (simp only: foldl_Cons Cons.IH list.map firstOccurrences.simps filter.simps
          if_False not_not not_True_eq_False)
  next
    case False
    have k: "map fst (count_step c (key x)) = map fst c @ [key x]"
      using False by (simp only: keys_count_step if_False)
    have "filter (\<lambda>k. k \<notin> set (map fst c @ [key x])) ?fo
        = filter (\<lambda>k. k \<notin> ?K) (filter (\<lambda>y. y \<noteq> key x) ?fo)"
      unfolding filter_filter by (intro filter_cong refl) auto
    then show ?thesis
      using False by (simp only: foldl_Cons Cons.IH list.map firstOccurrences.simps filter.simps
          if_True k append_assoc append_Cons append_Nil not_False_eq_True)
  qed
qed

lemma keys_getCrimeTypeDistribution:
  "map fst (getCrimeTypeDistribution incidents) = firstOccurrences (map type incidents)"
  by (simp add: getCrimeTypeDistribution_def keys_counts)

lemma getCrimeTypeDistribution_counted:
  "countedBy type incidents (getCrimeTypeDistribution incidents)"
  unfolding getCrimeTypeDistribution_def by (rule countedBy_fold)

lemma classifyHotspotType_last_dominant:
  assumes "classifyHotspotType ms = Inr t"
  shows "\<exists>pre post.
      Object_entries (getCrimeTypeDistribution ms)
        = pre @ (t, length (filter (\<lambda>i. type i = t) ms)) # post
    \<and> (\<forall>e \<in> set pre. snd e \<le> length (filter (\<lambda>i. type i = t) ms))
    \<and> (\<forall>e \<in> set post. snd e < length (filter (\<lambda>i. type i = t) ms))"
proof -
  define ct where "ct = getCrimeTypeDistribution ms"
  define f where "f = (\<lambda>a b :: string \<times> nat. if count_greater ct a b then a else b)"
  have counted: "countedBy type ms ct"
    unfolding ct_def by (rule getCrimeTypeDistribution_counted)
  then have d: "distinct (map fst ct)" by (simp add: countedBy_def)
  from assms obtain x xs where es: "Object_entries ct = x # xs" and t: "t = fst (foldl f x xs)"
    unfolding ct_def f_def
    by (cases "Object_entries (getCrimeTypeDistribution ms)")
      (auto simp: classifyHotspotType_def Let_def reduce1_def)
  have sub: "set (x # xs) = set ct"
    using set_Object_entries [of ct] es by simp
  have look: "lookup ct (fst a) = Some (snd a)" if "a \<in> set (x # xs)" for a
  proof -
    from that have "(fst a, snd a) \<in> set ct" unfolding sub by simp
    with d show ?thesis by (simp add: lookup_Some_iff)
  qed
  have "\<forall>a \<in> set (x # xs). \<forall>b \<in> set (x # xs). count_greater ct a b \<longleftrightarrow> snd b < snd a"
    by (intro ballI) (simp only: count_greater_def look option.case prod.case)
  from foldl_last_greatest [of x xs "count_greater ct" snd, OF this]
  obtain pre post where s: "x # xs = pre @ foldl f x xs # post"
    and le: "\<forall>e \<in> set pre. snd e \<le> snd (foldl f x xs)"
    and lt: "\<forall>e \<in> set post. snd e < snd (foldl f x xs)"
    unfolding f_def by blast
  have "foldl f x xs \<in> set (x # xs)"
    by (subst s) simp
  then have "(t, snd (foldl f x xs)) \<in> set ct" unfolding sub t by simp
  from countedBy_entry(1) [OF counted this]
  have n: "snd (foldl f x xs) = length (filter (\<lambda>i. type i = t) ms)" .
  have m: "foldl f x xs = (t, length (filter (\<lambda>i. type i = t) ms))"
    using t n by (cases "foldl f x xs") simp
  show ?thesis
    apply (rule exI [of _ pre], rule exI [of _ post])
    unfolding ct_def [symmetric] es
    using s le lt unfolding m by simp
qed

lemma tiedTypes_groups: "groupByLocation tiedTypes = Inr [(''main st'', tiedTypes)]"
  by (simp add: tiedTypes_def groupByLocation_def groupByLocation_step_def inheritedProperty_def
      mkIncident_def Let_def js_eval)

lemma tiedTypes_distribution:
  "getCrimeTypeDistribution tiedTypes = [(''theft'', 2), (''assault'', 2)]"
  by (simp add: tiedTypes_def getCrimeTypeDistribution_def count_step_def lookup_def mkIncident_def)

lemma tiedTypes_classify: "classifyHotspotType tiedTypes = Inr ''assault''"
proof -
  have e: "Object_entries [(''theft'', 2 :: nat), (''assault'', 2)] = [(''theft'', 2), (''assault'', 2)]"
    by (simp add: js_eval)
  show ?thesis
    unfolding classifyHotspotType_def tiedTypes_distribution Let_def e
    by (simp add: reduce1_def count_greater_def lookup_def)
qed

lemma tiedTypes_timeSpread: "calculateTimeSpread tiedTypes = 3000000"
  by (simp add: tiedTypes_def calculateTimeSpread_def mkIncident_def mkDate_def js_eval)

lemma tiedTypes_timeSpan: "calculateTimeSpan tiedTypes = 3000000"
  by (simp add: tiedTypes_def calculateTimeSpan_def mkIncident_def mkDate_def js_eval)

lemma tiedTypes_severity: "calculateAverageSeverity tiedTypes = 4"
  by (simp add: tiedTypes_def calculateAverageSeverity_def severityMap_def mkIncident_def)

lemma tiedTypes_hotspot: "hotspotOfGroup ''main st'' tiedTypes = Inr [tiedTypesHotspot]"
proof -
  have len: "length tiedTypes = 4"
    and ids: "map ident tiedTypes = [''g1'', ''g2'', ''g3'', ''g4'']"
    by (simp_all add: tiedTypes_def mkIncident_def)
  show ?thesis
    unfolding hotspotOfGroup_def calculateCrimeDensity_def tiedTypes_timeSpan tiedTypes_timeSpread
      tiedTypes_severity tiedTypes_classify tiedTypes_distribution Let_def len ids
    by (simp add: calculateHotspotConfidence_def msPerDay_def assessRiskLevel_def
        categorizeRiskLevel_def tiedTypesHotspot_def)
qed

lemma tiedTypes_hotspots: "detectCrimeHotspots tiedTypes = Inr [tiedTypesHotspot]"
proof -
  have e: "Object_entries [(''main st'', tiedTypes)] = [(''main st'', tiedTypes)]"
    by (simp add: js_eval)
  show ?thesis
    unfolding detectCrimeHotspots_def tiedTypes_groups
    by (simp add: tiedTypes_hotspot e)
qed

lemma set_firstOccurrences: "set (firstOccurrences xs) = set xs"
  by (induction xs) auto

lemma countedBy_member:
  assumes "countedBy key xs counts" and "length (filter (\<lambda>x. key x = k) xs) > 0"
  shows "(k, length (filter (\<lambda>x. key x = k) xs)) \<in> set counts"
proof -
  have d: "distinct (map fst counts)"
    and eq: "lookup counts k =
      (if length (filter (\<lambda>x. key x = k) xs) = 0 then None
       else Some (length (filter (\<lambda>x. key x = k) xs)))"
    using assms(1) by (simp_all add: countedBy_def)
  from eq assms(2) have "lookup counts k = Some (length (filter (\<lambda>x. key x = k) xs))"
    by simp
  with d show ?thesis by (simp add: lookup_Some_iff)
qed

text \<open>
  Claim C9, as the code has it. The subtype of an emitted hotspot pattern is a crime type
  with the greatest count within the location group of the pattern. Among the types tied
  for the greatest count it is the one that comes last in the key order of the group's
  type distribution (every later type has a strictly smaller count). When no type name of
  the group is an array index, that key order is the order of first occurrence in the
  group.
\<close>

theorem hotspot_subtype_is_last_dominant_type:
  assumes "detectCrimeHotspots incidents = Inr ps" and "p \<in> set ps"
  shows "\<exists>t pre post.
      subtype p = Some t
    \<and> Object_entries (getCrimeTypeDistribution (locationGroup incidents (plocation p)))
        = pre @ (t, length (filter (\<lambda>i. type i = t) (locationGroup incidents (plocation p)))) # post
    \<and> (\<forall>u. length (filter (\<lambda>i. type i = u) (locationGroup incidents (plocation p)))
             \<le> length (filter (\<lambda>i. type i = t) (locationGroup incidents (plocation p))))
    \<and> (\<forall>e \<in> set post.
          snd e < length (filter (\<lambda>i. type i = t) (locationGroup incidents (plocation p))))
    \<and> ((\<forall>i \<in> set (locationGroup incidents (plocation p)). array_index (type i) = None) \<longrightarrow>
          map fst (Object_entries (getCrimeTypeDistribution (locationGroup incidents (plocation p))))
            = firstOccurrences (map type (locationGroup incidents (plocation p))))"
proof -
  from detectCrimeHotspots_shape [OF assms] obtain loc ms qs
    where ms: "ms = filter (\<lambda>i. locationKey i = Some loc) incidents"
      and q: "hotspotOfGroup loc ms = Inr qs" "p \<in> set qs"
    by blast
  from hotspotOfGroup_shape [OF q] obtain t
    where cl: "classifyHotspotType ms = Inr t" and st: "subtype p = Some t" and pl: "plocation p = loc"
    by auto
  have g: "locationGroup incidents (plocation p) = ms"
    by (simp add: locationGroup_def pl ms)
  define cnt where "cnt = (\<lambda>u. length (filter (\<lambda>i. type i = u) ms))"
  from classifyHotspotType_last_dominant [OF cl] obtain pre post
    where es: "Object_entries (getCrimeTypeDistribution ms) = pre @ (t, cnt t) # post"
      and le: "\<forall>e \<in> set pre. snd e \<le> cnt t"
      and lt: "\<forall>e \<in> set post. snd e < cnt t"
    unfolding cnt_def by blast
  have greatest: "cnt u \<le> cnt t" for u
  proof (cases "cnt u = 0")
    case True
    then show ?thesis by simp
  next
    case False
    then have "(u, cnt u) \<in> set (getCrimeTypeDistribution ms)"
      unfolding cnt_def
      by (intro countedBy_member [OF getCrimeTypeDistribution_counted]) simp
    then have "(u, cnt u) \<in> set (pre @ (t, cnt t) # post)"
      using set_Object_entries [of "getCrimeTypeDistribution ms"] es by simp
    then show ?thesis using le lt by auto
  qed
  have order: "map fst (Object_entries (getCrimeTypeDistribution ms)) = firstOccurrences (map type ms)"
    if plain: "\<forall>i \<in> set ms. array_index (type i) = None"
  proof -
    have keys: "map fst (getCrimeTypeDistribution ms) = firstOccurrences (map type ms)"
      by (rule keys_getCrimeTypeDistribution)
    have "\<forall>e \<in> set (getCrimeTypeDistribution ms). array_index (fst e) = None"
    proof
      fix e assume "e \<in> set (getCrimeTypeDistribution ms)"
      then have "fst e \<in> set (map fst (getCrimeTypeDistribution ms))" by simp
      then have "fst e \<in> set (map type ms)"
        unfolding keys set_firstOccurrences .
      with plain show "array_index (fst e) = None" by auto
    qed
    from Object_entries_plain [OF this] keys show ?thesis by simp
  qed
  show ?thesis
    unfolding g
    apply (rule exI [of _ t], rule exI [of _ pre], rule exI [of _ post])
    using st es greatest lt order unfolding cnt_def by blast
qed

theorem hotspot_subtype_is_last_dominant_type_witness:
  "detectCrimeHotspots tiedTypes = Inr [tiedTypesHotspot]
   \<and> locationGroup tiedTypes (plocation tiedTypesHotspot) = tiedTypes
   \<and> map type tiedTypes = [''theft'', ''assault'', ''assault'', ''theft'']
   \<and> (\<exists>t pre post.
      subtype tiedTypesHotspot = Some t
    \<and> Object_entries (getCrimeTypeDistribution (locationGroup tiedTypes (plocation tiedTypesHotspot)))
        = pre @ (t, length (filter (\<lambda>i. type i = t) (locationGroup tiedTypes (plocation tiedTypesHotspot)))) # post
    \<and> (\<forall>u. length (filter (\<lambda>i. type i = u) (locationGroup tiedTypes (plocation tiedTypesHotspot)))
             \<le> length (filter (\<lambda>i. type i = t) (locationGroup tiedTypes (plocation tiedTypesHotspot))))
    \<and> (\<forall>e \<in> set post.
          snd e < length (filter (\<lambda>i. type i = t) (locationGroup tiedTypes (plocation tiedTypesHotspot))))
    \<and> ((\<forall>i \<in> set (locationGroup tiedTypes (plocation tiedTypesHotspot)). array_index (type i) = None) \<longrightarrow>
          map fst (Object_entries (getCrimeTypeDistribution (locationGroup tiedTypes (plocation tiedTypesHotspot))))
            = firstOccurrences (map type (locationGroup tiedTypes (plocation tiedTypesHotspot)))))"
proof -
  have mem: "tiedTypesHotspot \<in> set [tiedTypesHotspot]" by simp
  have g: "locationGroup tiedTypes (plocation tiedTypesHotspot) = tiedTypes"
    by (simp add: locationGroup_def tiedTypesHotspot_def tiedTypes_def locationKey_def
        mkIncident_def js_eval)
  have ty: "map type tiedTypes = [''theft'', ''assault'', ''assault'', ''theft'']"
    by (simp add: tiedTypes_def mkIncident_def)
  from hotspot_subtype_is_last_dominant_type [OF tiedTypes_hotspots mem] tiedTypes_hotspots g ty
  show ?thesis by (intro conjI)
qed

text \<open>
  The claim as stated fails: in \<open>tiedTypes\<close> theft and assault both occur twice and a theft
  comes first, but the subtype of the hotspot is assault.
\<close>

theorem hotspot_subtype_tie_takes_later_type:
  "detectCrimeHotspots tiedTypes = Inr [tiedTypesHotspot]
   \<and> subtype tiedTypesHotspot = Some ''assault''
   \<and> map type tiedTypes = [''theft'', ''assault'', ''assault'', ''theft'']
   \<and> getCrimeTypeDistribution tiedTypes = [(''theft'', 2), (''assault'', 2)]"
  using tiedTypes_hotspots tiedTypes_distribution
  by (simp add: tiedTypesHotspot_def tiedTypes_def mkIncident_def)

section \<open>Risk levels\<close>

lemma hotspot_riskLevel:
  assumes "detectCrimeHotspots incidents = Inr ps" and "p \<in> set ps"
  shows "\<exists>n density sev spread types.
      statistics p = HotspotStats n density sev spread types
    \<and> riskLevel p = categorizeRiskLevel
        (confidence p * 0.4 + sev / 4 * 0.4 + min 1 (of_nat n / 10) * 0.2)"
proof -
  from detectCrimeHotspots_shape [OF assms] obtain loc ms qs
    where q: "hotspotOfGroup loc ms = Inr qs" "p \<in> set qs"
    by blast
  from hotspotOfGroup_shape [OF q] obtain dominant
    where p: "p = \<lparr>ptype = ''hotspot'', subtype = Some dominant,
                 confidence = calculateHotspotConfidence (length ms) (calculateCrimeDensity ms)
                                (calculateAverageSeverity ms) (calculateTimeSpread ms),
                 plocation = loc,
                 statistics = HotspotStats (length ms) (calculateCrimeDensity ms)
                                (calculateAverageSeverity ms) (calculateTimeSpread ms)
                                (getCrimeTypeDistribution ms),
                 relatedIncidents = map ident ms,
                 riskLevel = assessRiskLevel
                               (calculateHotspotConfidence (length ms) (calculateCrimeDensity ms)
                                  (calculateAverageSeverity ms) (calculateTimeSpread ms))
                               (calculateAverageSeverity ms) (length ms)\<rparr>"
    by blast
  show ?thesis
    apply (rule exI [of _ "length ms"], rule exI [of _ "calculateCrimeDensity ms"],
        rule exI [of _ "calculateAverageSeverity ms"], rule exI [of _ "calculateTimeSpread ms"],
        rule exI [of _ "getCrimeTypeDistribution ms"])
    apply (simp only: p pattern.simps assessRiskLevel_def Let_def)
    done
qed

lemma series_riskLevel:
  assumes "p \<in> set (detectCrimeSeries incidents)"
  shows "riskLevel p = categorizeRiskLevel (confidence p)"
  using detectCrimeSeries_shape [OF assms] by auto

lemma cluster_riskLevel:
  assumes "performGeographicClustering incidents = Inr ps" and "p \<in> set ps"
  shows "riskLevel p = categorizeRiskLevel (confidence p)"
  using performGeographicClustering_shape [OF assms] by auto

lemma predictive_riskLevel:
  assumes "predictFutureHotspots now incidents = Inr ps" and "p \<in> set ps"
  shows "riskLevel p = categorizeRiskLevel (confidence p / 0.8)"
  using predictFutureHotspots_shape [OF assms] by auto

lemma risk_riskLevel:
  assumes "assessAreaRisk now incidents = Inr ps" and "p \<in> set ps"
  shows "\<exists>score level n severities recent.
      statistics p = RiskStats score level n severities recent
    \<and> riskLevel p = categorizeRiskLevel score"
  using assessAreaRisk_shape [OF assms] by auto

lemma temporal_riskLevel:
  assumes "analyzeTemporalPatterns incidents = Inr ps" and "p \<in> set ps"
  shows "(subtype p = Some ''hourly'' \<or> subtype p = Some ''daily'')
         \<and> riskLevel p = (if confidence p > 0.7 then ''high''
                           else if confidence p > 0.5 then ''medium'' else ''low'')
       \<or> subtype p = Some ''seasonal''
         \<and> riskLevel p = (if confidence p > 0.6 then ''medium'' else ''low'')"
proof -
  from assms(1) obtain ss where ss: "detectSeasonalPatterns incidents = Inr ss"
    and ps: "ps = detectHourlyPatterns incidents @ detectDailyPatterns incidents @ ss"
    by (auto simp: analyzeTemporalPatterns_def Let_def split: sum.splits)
  from assms(2) ps consider "p \<in> set (detectHourlyPatterns incidents)"
    | "p \<in> set (detectDailyPatterns incidents)" | "p \<in> set ss"
    by auto
  then show ?thesis
  proof cases
    case 1
    from detectHourlyPatterns_entry [OF this] obtain k n
      where "(k, n) \<in> set (hourCounts incidents)" "p \<in> set (hourlyPattern incidents (k, n))"
      by blast
    from hourlyPattern_shape [OF this] show ?thesis by blast
  next
    case 2
    from detectDailyPatterns_entry [OF this] obtain k n
      where "(k, n) \<in> set (dayCounts incidents)" "p \<in> set (dailyPattern incidents (k, n))"
      by blast
    from dailyPattern_shape [OF this] show ?thesis by blast
  next
    case 3
    from detectSeasonalPatterns_entry [OF ss this] obtain k n
      where "(k, n) \<in> set (monthCounts incidents)" "p \<in> set (seasonalPattern incidents (k, n))"
      by blast
    from seasonalPattern_shape [OF this] show ?thesis by blast
  qed
qed

text \<open>
  Claim C5, as the code has it. \<open>categorizeRiskLevel\<close> maps a score to high when it is at
  least 0.7, to medium when it is at least 0.5, and to low otherwise. The hotspot, series,
  cluster, predictive and risk-assessment detectors derive the risk level of a pattern with
  it: from the composite of confidence, average severity and count for a hotspot, from the
  confidence for a series and a cluster, from the confidence of the trend (the pattern's
  confidence divided by 0.8) for a prediction, and from the risk score for a risk
  assessment. The temporal detector does not: an hourly or daily pattern is high when its
  confidence is above 0.7, medium when it is above 0.5 and low otherwise, and a seasonal
  pattern is medium when its confidence is above 0.6 and low otherwise.
\<close>

theorem risk_level_rules_of_the_detectors:
  assumes "runDetectors now incidents = Inr results"
  shows "(\<forall>score. categorizeRiskLevel score =
            (if score \<ge> 0.7 then ''high'' else if score \<ge> 0.5 then ''medium'' else ''low''))
    \<and> (\<forall>p \<in> set (hotspots results). \<exists>n density sev spread types.
          statistics p = HotspotStats n density sev spread types
          \<and> riskLevel p = categorizeRiskLevel
              (confidence p * 0.4 + sev / 4 * 0.4 + min 1 (of_nat n / 10) * 0.2))
    \<and> (\<forall>p \<in> set (crimeSeries results). riskLevel p = categorizeRiskLevel (confidence p))
    \<and> (\<forall>p \<in> set (geographicClusters results). riskLevel p = categorizeRiskLevel (confidence p))
    \<and> (\<forall>p \<in> set (predictiveHotspots results).
          riskLevel p = categorizeRiskLevel (confidence p / 0.8))
    \<and> (\<forall>p \<in> set (riskAssessment results). \<exists>score level n severities recent.
          statistics p = RiskStats score level n severities recent
          \<and> riskLevel p = categorizeRiskLevel score)
    \<and> (\<forall>p \<in> set (temporalPatterns results).
          (subtype p = Some ''hourly'' \<or> subtype p = Some ''daily'')
            \<and> riskLevel p = (if confidence p > 0.7 then ''high''
                              else if confidence p > 0.5 then ''medium'' else ''low'')
          \<or> subtype p = Some ''seasonal''
            \<and> riskLevel p = (if confidence p > 0.6 then ''medium'' else ''low''))"
proof -
  from assms obtain hs ts gs ps rs
    where d: "detectCrimeHotspots incidents = Inr hs"
      "analyzeTemporalPatterns incidents = Inr ts"
      "performGeographicClustering incidents = Inr gs"
      "predictFutureHotspots now incidents = Inr ps"
      "assessAreaRisk now incidents = Inr rs"
      and r: "results = \<lparr>hotspots = hs, temporalPatterns = ts,
                          crimeSeries = detectCrimeSeries incidents,
                          geographicClusters = gs, predictiveHotspots = ps, riskAssessment = rs\<rparr>"
    by (auto simp: runDetectors_def split: sum.splits)
  have sel: "hotspots results = hs" "temporalPatterns results = ts"
    "crimeSeries results = detectCrimeSeries incidents" "geographicClusters results = gs"
    "predictiveHotspots results = ps" "riskAssessment results = rs"
    by (simp_all add: r)
  show ?thesis
    unfolding sel
    apply (intro conjI ballI allI)
          apply (rule categorizeRiskLevel_def)
         apply (erule hotspot_riskLevel [OF d(1)])
        apply (erule series_riskLevel)
       apply (erule cluster_riskLevel [OF d(3)])
      apply (erule predictive_riskLevel [OF d(4)])
     apply (erule risk_riskLevel [OF d(5)])
    apply (erule temporal_riskLevel [OF d(2)])
    done
qed

theorem risk_level_rules_of_the_detectors_witness:
  "runDetectors 1700300000000 fourPlaces = Inr fourPlacesResults
   \<and> temporalPatterns fourPlacesResults = [fourPlacesHourly, fourPlacesSeasonal]
   \<and> geographicClusters fourPlacesResults = [fourPlacesCluster]
   \<and> riskLevel fourPlacesCluster = categorizeRiskLevel (confidence fourPlacesCluster)
   \<and> riskLevel fourPlacesHourly =
       (if confidence fourPlacesHourly > 0.7 then ''high''
        else if confidence fourPlacesHourly > 0.5 then ''medium'' else ''low'')
   \<and> riskLevel fourPlacesSeasonal =
       (if confidence fourPlacesSeasonal > 0.6 then ''medium'' else ''low'')"
proof -
  have t: "temporalPatterns fourPlacesResults = [fourPlacesHourly, fourPlacesSeasonal]"
    and g: "geographicClusters fourPlacesResults = [fourPlacesCluster]"
    by (simp_all add: fourPlacesResults_def)
  have sub: "subtype fourPlacesHourly = Some ''hourly''" "subtype fourPlacesSeasonal = Some ''seasonal''"
    by (simp_all add: fourPlacesHourly_def fourPlacesSeasonal_def)
  from risk_level_rules_of_the_detectors [OF fourPlaces_detectors]
  have "\<forall>p \<in> set (geographicClusters fourPlacesResults). riskLevel p = categorizeRiskLevel (confidence p)"
    and "\<forall>p \<in> set (temporalPatterns fourPlacesResults).
          (subtype p = Some ''hourly'' \<or> subtype p = Some ''daily'')
            \<and> riskLevel p = (if confidence p > 0.7 then ''high''
                              else if confidence p > 0.5 then ''medium'' else ''low'')
          \<or> subtype p = Some ''seasonal''
            \<and> riskLevel p = (if confidence p > 0.6 then ''medium'' else ''low'')"
    by blast+
  then have "riskLevel fourPlacesCluster = categorizeRiskLevel (confidence fourPlacesCluster)"
    and "riskLevel fourPlacesHourly =
       (if confidence fourPlacesHourly > 0.7 then ''high''
        else if confidence fourPlacesHourly > 0.5 then ''medium'' else ''low'')"
    and "riskLevel fourPlacesSeasonal =
       (if confidence fourPlacesSeasonal > 0.6 then ''medium'' else ''low'')"
    unfolding t g using sub by auto
  with fourPlaces_detectors t g show ?thesis by (intro conjI)
qed

lemma toFixed1_50_3: "toFixed1 (50 / 3) = ''16.7''"
  by code_simp

lemma toFixed1_250_3: "toFixed1 (250 / 3) = ''83.3''"
  by code_simp

lemma boundaryDays_dayCounts: "dayCounts boundaryDays = [(''5'', 3), (''2'', 15)]"
  by (simp add: boundaryDays_def dayCounts_def count_step_def lookup_def mkIncident_def mkDate_def
      toString_def digits.simps digit_char_def)

lemma boundaryDays_daily: "detectDailyPatterns boundaryDays = [boundaryTuesday, boundaryFriday]"
proof -
  have e: "Object_entries [(''5'', 3 :: nat), (''2'', 15)] = [(''2'', 15), (''5'', 3)]"
    by (simp add: js_eval)
  have s: "take 2 (sortBy byCountDesc [(''2'', 15 :: nat), (''5'', 3)]) = [(''2'', 15), (''5'', 3)]"
    by (simp add: sortBy_def byCountDesc_def)
  have len: "length boundaryDays = 18"
    by (simp add: boundaryDays_def)
  have tu: "dailyPattern boundaryDays (''2'', 15) = [boundaryTuesday]"
    by (simp add: dailyPattern_def Let_def len js_eval dayNames_def boundaryTuesday_def
        toFixed1_250_3)
      (simp add: boundaryDays_def mkIncident_def mkDate_def)
  have fr: "dailyPattern boundaryDays (''5'', 3) = [boundaryFriday]"
    by (simp add: dailyPattern_def Let_def len js_eval dayNames_def boundaryFriday_def
        toFixed1_50_3)
      (simp add: boundaryDays_def mkIncident_def mkDate_def)
  show ?thesis
    unfolding detectDailyPatterns_def boundaryDays_dayCounts e s Let_def
    by (simp add: tu fr)
qed

text \<open>
  The claim as stated fails for the temporal detector. The seasonal pattern of
  \<open>fourPlaces\<close> has confidence 0.8 and risk level medium, where the common rule gives
  high; the Friday pattern of \<open>boundaryDays\<close> has confidence 0.5 and risk level low, where
  the common rule gives medium.
\<close>

theorem temporal_risk_levels_differ:
  "detectSeasonalPatterns fourPlaces = Inr [fourPlacesSeasonal]
   \<and> confidence fourPlacesSeasonal = 0.8
   \<and> riskLevel fourPlacesSeasonal = ''medium''
   \<and> categorizeRiskLevel 0.8 = ''high''
   \<and> detectDailyPatterns boundaryDays = [boundaryTuesday, boundaryFriday]
   \<and> confidence boundaryFriday = 0.5
   \<and> riskLevel boundaryFriday = ''low''
   \<and> categorizeRiskLevel 0.5 = ''medium''"
  using fourPlaces_seasonal boundaryDays_daily
  by (simp add: fourPlacesSeasonal_def boundaryFriday_def categorizeRiskLevel_def)

section \<open>The confidence of a hotspot\<close>

lemma september2001_sorted:
  "sortDefault [999820800000, 999907200000, 1000080000000]
     = [1000080000000, 999820800000, 999907200000]"
  by (simp add: js_eval)

lemma september2001_timeSpan: "calculateTimeSpan september2001 = - 172800000"
  by (simp add: september2001_def calculateTimeSpan_def mkIncident_def mkDate_def
      september2001_sorted)

lemma september2001_timeSpread: "calculateTimeSpread september2001 = - 172800000"
  by (simp add: september2001_def calculateTimeSpread_def mkIncident_def mkDate_def
      september2001_sorted)

lemma september2001_groups: "groupByLocation september2001 = Inr [(''main st'', september2001)]"
  by (simp add: september2001_def groupByLocation_def groupByLocation_step_def inheritedProperty_def
      mkIncident_def Let_def js_eval)

lemma september2001_distribution: "getCrimeTypeDistribution september2001 = [(''theft'', 3)]"
  by (simp add: september2001_def getCrimeTypeDistribution_def count_step_def lookup_def
      mkIncident_def)

lemma september2001_classify: "classifyHotspotType september2001 = Inr ''theft''"
proof -
  have e: "Object_entries [(''theft'', 3 :: nat)] = [(''theft'', 3)]"
    by (simp add: js_eval)
  show ?thesis
    unfolding classifyHotspotType_def september2001_distribution Let_def e
    by (simp add: reduce1_def)
qed

lemma september2001_severity: "calculateAverageSeverity september2001 = 1"
  by (simp add: september2001_def calculateAverageSeverity_def severityMap_def mkIncident_def)

lemma september2001_hotspots: "detectCrimeHotspots september2001 = Inr [septemberHotspot]"
proof -
  have len: "length september2001 = 3"
    and ids: "map ident september2001 = [''s1'', ''s2'', ''s3'']"
    by (simp_all add: september2001_def mkIncident_def)
  have e: "Object_entries [(''main st'', september2001)] = [(''main st'', september2001)]"
    by (simp add: js_eval)
  have h: "hotspotOfGroup ''main st'' september2001 = Inr [septemberHotspot]"
    unfolding hotspotOfGroup_def calculateCrimeDensity_def september2001_timeSpan
      september2001_timeSpread september2001_severity september2001_classify
      september2001_distribution Let_def len ids
    by (simp add: calculateHotspotConfidence_def msPerDay_def assessRiskLevel_def
        categorizeRiskLevel_def septemberHotspot_def)
  show ?thesis
    unfolding detectCrimeHotspots_def september2001_groups
    by (simp add: h e)
qed

text \<open>
  Claim C4 fails on the code for \<open>september2001\<close>. \<open>calculateTimeSpan\<close> and
  \<open>calculateTimeSpread\<close> sort the timestamps with \<open>sort()\<close>, which compares them as
  strings, so the 13-digit timestamp comes first and the span is negative (minus two days)
  where the earliest and the latest incident are three days apart. The detector then takes
  the density for 3 per day and the time score for 0, and emits a hotspot of confidence
  0.47; with the span of three days the formula of the claim gives 0.33, below the
  threshold 0.4.
\<close>

theorem hotspot_confidence_with_unsorted_timestamps:
  "calculateTimeSpan september2001 = - 172800000
   \<and> calculateTimeSpread september2001 = - 172800000
   \<and> specTimeSpreadMs september2001 = 259200000
   \<and> detectCrimeHotspots september2001 = Inr [septemberHotspot]
   \<and> confidence septemberHotspot = 47 / 100
   \<and> specHotspotConfidence september2001 = 33 / 100
   \<and> \<not> specHotspotConfidence september2001 \<ge> 0.4"
proof -
  have sp: "specTimeSpreadMs september2001 = 259200000"
    by (simp add: specTimeSpreadMs_def september2001_def mkIncident_def mkDate_def)
  have len: "length september2001 = 3"
    by (simp add: september2001_def)
  have c: "specHotspotConfidence september2001 = 33 / 100"
    unfolding specHotspotConfidence_def sp september2001_severity len Let_def
    by (simp add: msPerDay_def)
  show ?thesis
    using september2001_timeSpan september2001_timeSpread sp september2001_hotspots c
    by (simp add: septemberHotspot_def)
qed

end
